theory Spec2Isabelle
  imports Main "HOL-Library.Word"
begin

section \<open>Results, panics and errors\<close>

text \<open>
  Go byte slices and Go strings are both byte sequences; a \<open>nil\<close> slice and an empty one
  have the same length, and the code only ever asks for the length.
\<close>

type_synonym bytes = string

text \<open>
  A Go call either returns or panics. An index outside a slice, a method call or field
  read through a \<open>nil\<close> pointer or interface, and an explicit \<open>panic(err)\<close> are the
  three panics the modelled code can raise.
\<close>

datatype panic = IndexOutOfRange | NilDereference | PanicError string

datatype 'a outcome = Return 'a | Panicked panic

text \<open>
  Error values. \<open>ErrInvalidProof\<close> is the registered error of the commitment package and
  \<open>ErrInvalidPath\<close> the one of the host package; \<open>Wrap\<close> and \<open>Wrapf\<close> are
  \<open>sdkerrors.Wrap\<close> and \<open>sdkerrors.Wrapf\<close> (the format string is kept with its
  arguments), \<open>ErrorsNew\<close> is \<open>errors.New\<close>. A Go \<open>error\<close> result is an
  \<open>error option\<close>, \<open>None\<close> for \<open>nil\<close>.
\<close>

datatype fmt_arg = IntArg int | StrArg string

datatype error =
    ErrInvalidProof
  | ErrInvalidPath
  | Wrap error string
  | Wrapf error string "fmt_arg list"
  | ErrorsNew string

text \<open>
  The error kinds the specification names, read off the errors the source constructs:
  a wrapped error has the kind of the error it wraps, and the two \<open>errors.New\<close> values of
  \<open>ApplyPrefix\<close> are the kinds \<open>EmptyPrefix\<close> and \<open>NotAMerklePath\<close>.
\<close>

datatype error_kind = InvalidProof | InvalidPath | EmptyPrefix | NotAMerklePath | OtherError

fun kind_of :: "error \<Rightarrow> error_kind" where
  "kind_of ErrInvalidProof = InvalidProof"
| "kind_of ErrInvalidPath = InvalidPath"
| "kind_of (Wrap e m) = kind_of e"
| "kind_of (Wrapf e f as) = kind_of e"
| "kind_of (ErrorsNew m) =
     (if m = ''prefix can't be empty'' then EmptyPrefix
      else if m = ''path is not a merklepath'' then NotAMerklePath
      else OtherError)"

text \<open>Indexing a Go slice: \<open>None\<close> stands for the index-out-of-range panic.\<close>

definition index_at :: "'a list \<Rightarrow> int \<Rightarrow> 'a option" where
  "index_at xs i = (if 0 \<le> i \<and> i < int (length xs) then Some (xs ! nat i) else None)"

section \<open>Roots, prefixes and paths\<close>

record MerkleRoot =
  Hash :: bytes

definition NewMerkleRoot :: "bytes \<Rightarrow> MerkleRoot" where
  "NewMerkleRoot hash = \<lparr>Hash = hash\<rparr>"

definition GetHash :: "MerkleRoot \<Rightarrow> bytes" where
  "GetHash mr = Hash mr"

definition MerkleRoot_IsEmpty :: "MerkleRoot \<Rightarrow> bool" where
  "MerkleRoot_IsEmpty mr = (length (GetHash mr) = 0)"

record MerklePrefix =
  KeyPrefix :: bytes

definition NewMerklePrefix :: "bytes \<Rightarrow> MerklePrefix" where
  "NewMerklePrefix keyPrefix = \<lparr>KeyPrefix = keyPrefix\<rparr>"

definition Bytes :: "MerklePrefix \<Rightarrow> bytes" where
  "Bytes mp = KeyPrefix mp"

definition MerklePrefix_IsEmpty :: "MerklePrefix \<Rightarrow> bool" where
  "MerklePrefix_IsEmpty mp = (length (Bytes mp) = 0)"

text \<open>
  \<open>merkle.KeyPath\<close> of the Tendermint library is a slice of keys, each a name with its
  encoding; \<open>AppendKey\<close> appends one. Its \<open>String\<close> method (percent-escaping of URL
  keys, hexadecimal for the others) belongs to the library: every function below that
  renders a key path takes it as the parameter \<open>ks\<close>.
\<close>

datatype keyEncoding = KeyEncodingURL | KeyEncodingHex | KeyEncodingMax

datatype Key = MkKey bytes keyEncoding

type_synonym KeyPath = "Key list"

definition AppendKey :: "KeyPath \<Rightarrow> bytes \<Rightarrow> keyEncoding \<Rightarrow> KeyPath" where
  "AppendKey pth key enc = pth @ [MkKey key enc]"

record MerklePath =
  KeyPaths :: "KeyPath list"

fun NewMerklePath_loop :: "string list \<Rightarrow> KeyPath \<Rightarrow> KeyPath" where
  "NewMerklePath_loop [] merkleKeyPath = merkleKeyPath"
| "NewMerklePath_loop (keyStr # rest) merkleKeyPath =
     NewMerklePath_loop rest (AppendKey merkleKeyPath keyStr KeyEncodingURL)"

definition NewMerklePath :: "string list \<Rightarrow> MerklePath" where
  "NewMerklePath keyPathStr = \<lparr>KeyPaths = [NewMerklePath_loop keyPathStr []]\<rparr>"

text \<open>
  \<open>MerklePath.String\<close>: the empty string for no key path, else the first key path's
  rendering, then \<open>/\<close> and the rendering of every key path whose index is not 0.
\<close>

fun String_loop :: "(KeyPath \<Rightarrow> string) \<Rightarrow> nat \<Rightarrow> KeyPath list \<Rightarrow> string \<Rightarrow> string" where
  "String_loop ks i [] pathStr = pathStr"
| "String_loop ks i (p # ps) pathStr =
     String_loop ks (Suc i) ps (if i \<noteq> 0 then pathStr @ ''/'' @ ks p else pathStr)"

definition MerklePath_String :: "(KeyPath \<Rightarrow> string) \<Rightarrow> MerklePath \<Rightarrow> string" where
  "MerklePath_String ks mp =
     (if length (KeyPaths mp) = 0 then ''''
      else case index_at (KeyPaths mp) 0 of
             None \<Rightarrow> ''''
           | Some k0 \<Rightarrow> String_loop ks 0 (KeyPaths mp) (ks k0))"

definition MerklePath_IsEmpty :: "MerklePath \<Rightarrow> bool" where
  "MerklePath_IsEmpty mp = (length (KeyPaths mp) = 0)"

text \<open>
  \<open>exported.Path\<close> is an interface. \<open>MerklePath\<close> is the implementation of this file;
  \<open>PathOther s e\<close> is any other implementation, with what its \<open>String\<close> and
  \<open>IsEmpty\<close> methods return. A \<open>nil\<close> interface value is \<open>None\<close>.
\<close>

datatype Path = PathMerkle MerklePath | PathOther string bool

fun Path_String :: "(KeyPath \<Rightarrow> string) \<Rightarrow> Path \<Rightarrow> string" where
  "Path_String ks (PathMerkle mp) = MerklePath_String ks mp"
| "Path_String ks (PathOther s e) = s"

fun Path_IsEmpty :: "Path \<Rightarrow> bool" where
  "Path_IsEmpty (PathMerkle mp) = MerklePath_IsEmpty mp"
| "Path_IsEmpty (PathOther s e) = e"

subsection \<open>Pretty\<close>

text \<open>
  \<open>url.PathUnescape\<close> of the Go standard library (\<open>unescape\<close> in the path-segment
  mode): a \<open>%\<close> must be followed by two hexadecimal digits, which it replaces by the
  byte they denote; every other byte is kept. At the first \<open>%\<close> that is not, it
  returns an \<open>EscapeError\<close> holding at most three bytes from that \<open>%\<close> on.
\<close>

definition ishex :: "char \<Rightarrow> bool" where
  "ishex c =
     (let n = (of_char c :: nat)
      in (48 \<le> n \<and> n \<le> 57) \<or> (97 \<le> n \<and> n \<le> 102) \<or> (65 \<le> n \<and> n \<le> 70))"

definition unhex :: "char \<Rightarrow> nat" where
  "unhex c =
     (let n = (of_char c :: nat)
      in if 48 \<le> n \<and> n \<le> 57 then n - 48
         else if 97 \<le> n \<and> n \<le> 102 then n - 97 + 10
         else if 65 \<le> n \<and> n \<le> 70 then n - 65 + 10
         else 0)"

fun PathUnescape :: "string \<Rightarrow> string + string" where
  "PathUnescape [] = Inr []"
| "PathUnescape (c # s) =
     (if c = CHR ''%'' then
        (case s of
           h1 # h2 # rest \<Rightarrow>
             if ishex h1 \<and> ishex h2 then
               (case PathUnescape rest of
                  Inl e \<Rightarrow> Inl e
                | Inr t \<Rightarrow> Inr (char_of (unhex h1 * 16 + unhex h2) # t))
             else Inl (take 3 (c # s))
         | _ \<Rightarrow> Inl (take 3 (c # s)))
      else
        (case PathUnescape s of
           Inl e \<Rightarrow> Inl e
         | Inr t \<Rightarrow> Inr (c # t)))"

definition Pretty :: "(KeyPath \<Rightarrow> string) \<Rightarrow> MerklePath \<Rightarrow> string outcome" where
  "Pretty ks mp =
     (case PathUnescape (MerklePath_String ks mp) of
        Inl err \<Rightarrow> Panicked (PanicError err)
      | Inr path \<Rightarrow> Return path)"

text \<open>
  The specification's words for \<open>Pretty\<close>: a string is valid percent-encoding when
  every \<open>%\<close> in it is followed by two hexadecimal digits, and its percent-decoded form
  replaces every such triple by the byte it denotes.
\<close>

definition valid_percent_encoding :: "string \<Rightarrow> bool" where
  "valid_percent_encoding s =
     (\<forall>i \<in> {..<length s}.
        s ! i = CHR ''%'' \<longrightarrow> i + 2 < length s \<and> ishex (s ! (i + 1)) \<and> ishex (s ! (i + 2)))"

fun percent_decode :: "string \<Rightarrow> string" where
  "percent_decode (c # h1 # h2 # rest) =
     (if c = CHR ''%'' \<and> ishex h1 \<and> ishex h2
      then char_of (unhex h1 * 16 + unhex h2) # percent_decode rest
      else c # percent_decode (h1 # h2 # rest))"
| "percent_decode (c # s) = c # percent_decode s"
| "percent_decode [] = []"

subsection \<open>ApplyPrefix\<close>

text \<open>
  \<open>host.DefaultPathValidator\<close> is the parameter \<open>validator\<close>: it returns the error
  it found in the path string, or \<open>None\<close>. \<open>exported.Prefix\<close> has the one
  implementation \<open>MerklePrefix\<close>; a \<open>nil\<close> prefix is \<open>None\<close>. The call
  \<open>path.String()\<close> comes first, and on a \<open>nil\<close> path it panics.
\<close>

definition Prefix_nil_or_empty :: "MerklePrefix option \<Rightarrow> bool" where
  "Prefix_nil_or_empty prefix =
     (case prefix of None \<Rightarrow> True | Some p \<Rightarrow> MerklePrefix_IsEmpty p)"

definition ApplyPrefix ::
  "(KeyPath \<Rightarrow> string) \<Rightarrow> (string \<Rightarrow> error option) \<Rightarrow> MerklePrefix option \<Rightarrow> Path option \<Rightarrow>
   (MerklePath \<times> error option) outcome" where
  "ApplyPrefix ks validator prefix path =
     (case path of
        None \<Rightarrow> Panicked NilDereference
      | Some pth \<Rightarrow>
          (case validator (Path_String ks pth) of
             Some err \<Rightarrow> Return (\<lparr>KeyPaths = []\<rparr>, Some err)
           | None \<Rightarrow>
               if Prefix_nil_or_empty prefix then
                 Return (\<lparr>KeyPaths = []\<rparr>, Some (ErrorsNew ''prefix can't be empty''))
               else
                 (case (prefix, pth) of
                    (Some pre, PathMerkle mpath) \<Rightarrow>
                      (let prefixPath = NewMerklePath [Bytes pre];
                           kpath = KeyPaths prefixPath @ KeyPaths mpath
                       in Return (\<lparr>KeyPaths = kpath\<rparr>, None))
                  | (Some pre, PathOther s e) \<Rightarrow>
                      Return (\<lparr>KeyPaths = []\<rparr>, Some (ErrorsNew ''path is not a merklepath''))
                  | _ \<Rightarrow>
                      Return (\<lparr>KeyPaths = []\<rparr>, Some (ErrorsNew ''prefix can't be empty'')))))"

section \<open>Chained commitment proofs\<close>

text \<open>
  The proof types of the ics23 library. \<open>'e\<close> is a pointer to an
  \<open>ics23.ExistenceProof\<close> (a \<open>nil\<close> pointer is one of its values) and \<open>'s\<close> an
  \<open>ics23.ProofSpec\<close>; the library's three operations are the fields of \<open>ics23\<close>.
  \<open>Calculate\<close> returns the message of its error or the root it computed.
  The \<open>Proof\<close> field of a \<open>CommitmentProof\<close> is a one-of: an existence proof, a
  non-existence proof (a pointer, \<open>None\<close> for \<open>nil\<close>), a batch, a compressed batch,
  or nothing.
\<close>

record 'e NonExistenceProof =
  NonExist_Key :: bytes
  Left :: 'e
  Right :: 'e

datatype 'e isCommitmentProof_Proof =
    CommitmentProof_Exist 'e
  | CommitmentProof_Nonexist "'e NonExistenceProof option"
  | CommitmentProof_Batch
  | CommitmentProof_Compressed
  | CommitmentProof_None

record 'e CommitmentProof =
  Proof :: "'e isCommitmentProof_Proof"

record ('e, 's) MerkleProof =
  Proofs :: "'e CommitmentProof option list"
  Specs :: "'s option list"

record ('e, 's) ics23 =
  ics23_Calculate :: "'e \<Rightarrow> string + bytes"
  ics23_VerifyMembership ::
    "'s option \<Rightarrow> bytes \<Rightarrow> 'e CommitmentProof option \<Rightarrow> bytes \<Rightarrow> bytes \<Rightarrow> bool"
  ics23_VerifyNonMembership ::
    "'s option \<Rightarrow> bytes \<Rightarrow> 'e CommitmentProof option \<Rightarrow> bytes \<Rightarrow> bool"

text \<open>
  The cryptographic work of a verification is the list of calls it makes to the ics23
  library, in order, each with its arguments. A verification returns this list with its
  outcome.
\<close>

datatype ('e, 's) call =
    Calculate_call 'e
  | VerifyMembership_call "'s option" bytes "'e CommitmentProof option" bytes bytes
  | VerifyNonMembership_call "'s option" bytes "'e CommitmentProof option" bytes

type_synonym ('e, 's) run = "('e, 's) call list \<times> error option outcome"

definition after :: "('e, 's) call list \<Rightarrow> ('e, 's) run \<Rightarrow> ('e, 's) run" where
  "after cs r = (cs @ fst r, snd r)"

subsection \<open>IsEmpty and ValidateBasic\<close>

text \<open>
  The loop of \<open>IsEmpty\<close> ranges over \<open>Proofs\<close> and reads \<open>Specs\<close> at the same index,
  unless the sub-proof is \<open>nil\<close> (the \<open>||\<close> is short-circuit).
\<close>

fun IsEmpty_loop :: "'s option list \<Rightarrow> nat \<Rightarrow> 'e CommitmentProof option list \<Rightarrow> bool outcome" where
  "IsEmpty_loop specs i [] = Return False"
| "IsEmpty_loop specs i (p # ps) =
     (if p = None then Return True
      else case index_at specs (int i) of
             None \<Rightarrow> Panicked IndexOutOfRange
           | Some s \<Rightarrow> if s = None then Return True else IsEmpty_loop specs (Suc i) ps)"

definition IsEmpty :: "('e, 's) MerkleProof \<Rightarrow> bool outcome" where
  "IsEmpty proof =
     (if length (Proofs proof) = 0 \<or> length (Specs proof) = 0 then Return True
      else IsEmpty_loop (Specs proof) 0 (Proofs proof))"

definition ValidateBasic :: "('e, 's) MerkleProof \<Rightarrow> error option outcome" where
  "ValidateBasic proof =
     (case IsEmpty proof of
        Panicked x \<Rightarrow> Panicked x
      | Return e \<Rightarrow>
          if e \<or> length (Proofs proof) \<noteq> length (Specs proof) then Return (Some ErrInvalidProof)
          else Return None)"

subsection \<open>VerifyMembership\<close>

definition invalid_proof_for_path :: "(KeyPath \<Rightarrow> string) \<Rightarrow> Path \<Rightarrow> error" where
  "invalid_proof_for_path ks path =
     Wrapf ErrInvalidProof ''invalid proof for path: %s'' [StrArg (Path_String ks path)]"

definition invalid_chained_proof :: "nat \<Rightarrow> nat \<Rightarrow> error" where
  "invalid_chained_proof n m =
     Wrapf ErrInvalidProof
       ''invalid chained proof. proof chain length %d not the same as path length %d''
       [IntArg (int n), IntArg (int m)]"

definition Root_nil_or_empty :: "MerkleRoot option \<Rightarrow> bool" where
  "Root_nil_or_empty root = (case root of None \<Rightarrow> True | Some r \<Rightarrow> MerkleRoot_IsEmpty r)"

definition Path_nil_or_empty :: "Path option \<Rightarrow> bool" where
  "Path_nil_or_empty path = (case path of None \<Rightarrow> True | Some p \<Rightarrow> Path_IsEmpty p)"

text \<open>
  The loop over \<open>proof.Proofs\<close>, at index \<open>i\<close> with the sub-proofs still to visit.
  The sub-path is read at the reverse index \<open>len(KeyPaths) - i - 1\<close>, a signed
  integer; \<open>value\<close> is the running value.
\<close>

fun VerifyMembership_loop ::
  "(KeyPath \<Rightarrow> string) \<Rightarrow> ('e, 's) ics23 \<Rightarrow> ('e, 's) MerkleProof \<Rightarrow> MerkleRoot \<Rightarrow> Path \<Rightarrow>
   MerklePath \<Rightarrow> nat \<Rightarrow> 'e CommitmentProof option list \<Rightarrow> bytes \<Rightarrow> ('e, 's) run" where
  "VerifyMembership_loop ks lib proof root path mpath i [] value = ([], Return None)"
| "VerifyMembership_loop ks lib proof root path mpath i (p # ps) value =
     (case index_at (KeyPaths mpath) (int (length (KeyPaths mpath)) - int i - 1) of
        None \<Rightarrow> ([], Panicked IndexOutOfRange)
      | Some kp \<Rightarrow>
          (case p of
             None \<Rightarrow> ([], Panicked NilDereference)
           | Some cp \<Rightarrow>
               (case Proof cp of
                  CommitmentProof_Exist e \<Rightarrow>
                    (case ics23_Calculate lib e of
                       Inl msg \<Rightarrow> ([Calculate_call e], Return (Some (Wrap ErrInvalidProof msg)))
                     | Inr subroot \<Rightarrow>
                         if int i \<noteq> int (length (Proofs proof)) - 1 then
                           (case index_at (Specs proof) (int i) of
                              None \<Rightarrow> ([Calculate_call e], Panicked IndexOutOfRange)
                            | Some spec \<Rightarrow>
                                if \<not> ics23_VerifyMembership lib spec subroot p (ks kp) value then
                                  ([Calculate_call e,
                                    VerifyMembership_call spec subroot p (ks kp) value],
                                   Return (Some (invalid_proof_for_path ks path)))
                                else
                                  after [Calculate_call e,
                                         VerifyMembership_call spec subroot p (ks kp) value]
                                    (VerifyMembership_loop ks lib proof root path mpath (Suc i) ps subroot))
                         else
                           (case index_at (Specs proof) (int i) of
                              None \<Rightarrow> ([Calculate_call e], Panicked IndexOutOfRange)
                            | Some spec \<Rightarrow>
                                if \<not> ics23_VerifyMembership lib spec (GetHash root) p (ks kp) value then
                                  ([Calculate_call e,
                                    VerifyMembership_call spec (GetHash root) p (ks kp) value],
                                   Return (Some (invalid_proof_for_path ks path)))
                                else
                                  after [Calculate_call e,
                                         VerifyMembership_call spec (GetHash root) p (ks kp) value]
                                    (VerifyMembership_loop ks lib proof root path mpath (Suc i) ps subroot)))
                | _ \<Rightarrow> ([], Return (Some (Wrap ErrInvalidProof ''proof is not an existence proof''))))))"

definition VerifyMembership ::
  "(KeyPath \<Rightarrow> string) \<Rightarrow> ('e, 's) ics23 \<Rightarrow> ('e, 's) MerkleProof \<Rightarrow> MerkleRoot option \<Rightarrow>
   Path option \<Rightarrow> bytes \<Rightarrow> ('e, 's) run" where
  "VerifyMembership ks lib proof root path value =
     (case ValidateBasic proof of
        Panicked x \<Rightarrow> ([], Panicked x)
      | Return vb \<Rightarrow>
          if vb \<noteq> None \<or> Root_nil_or_empty root \<or> Path_nil_or_empty path \<or> length value = 0 then
            ([], Return (Some (Wrap ErrInvalidProof ''empty params or proof'')))
          else
            (case (root, path) of
               (Some r, Some (PathMerkle mpath)) \<Rightarrow>
                 if length (Proofs proof) = length (KeyPaths mpath) then
                   ([], Return (Some (invalid_chained_proof (length (Proofs proof))
                                        (length (KeyPaths mpath)))))
                 else VerifyMembership_loop ks lib proof r (PathMerkle mpath) mpath 0 (Proofs proof) value
             | (Some r, Some (PathOther s e)) \<Rightarrow>
                 ([], Return (Some (Wrap ErrInvalidProof
                                      ''path is not a merkle path for a merkle proof'')))
             | _ \<Rightarrow> ([], Return (Some (Wrap ErrInvalidProof ''empty params or proof'')))))"

subsection \<open>VerifyNonMembership\<close>

text \<open>
  The loop keeps two variables, \<open>value\<close> and \<open>subroot\<close>, both \<open>nil\<close> at the start.
  At index 0 the sub-proof must be a non-existence proof and the root is computed from
  its left neighbour; at the last index (when it is not index 0) no root is computed and
  the check is made against the root the caller gave.
\<close>

fun VerifyNonMembership_loop ::
  "(KeyPath \<Rightarrow> string) \<Rightarrow> ('e, 's) ics23 \<Rightarrow> ('e, 's) MerkleProof \<Rightarrow> MerkleRoot \<Rightarrow> Path \<Rightarrow>
   MerklePath \<Rightarrow> nat \<Rightarrow> 'e CommitmentProof option list \<Rightarrow> bytes \<Rightarrow> bytes \<Rightarrow> ('e, 's) run" where
  "VerifyNonMembership_loop ks lib proof root path mpath i [] value subroot = ([], Return None)"
| "VerifyNonMembership_loop ks lib proof root path mpath i (p # ps) value subroot =
     (case index_at (KeyPaths mpath) (int (length (KeyPaths mpath)) - int i - 1) of
        None \<Rightarrow> ([], Panicked IndexOutOfRange)
      | Some kp \<Rightarrow>
          if i = 0 then
            (case p of
               None \<Rightarrow> ([], Panicked NilDereference)
             | Some cp \<Rightarrow>
                 (case Proof cp of
                    CommitmentProof_Nonexist ne \<Rightarrow>
                      (case ne of
                         None \<Rightarrow> ([], Panicked NilDereference)
                       | Some nonexist \<Rightarrow>
                           (case ics23_Calculate lib (Left nonexist) of
                              Inl msg \<Rightarrow>
                                ([Calculate_call (Left nonexist)],
                                 Return (Some (Wrap ErrInvalidProof msg)))
                            | Inr subroot' \<Rightarrow>
                                (case index_at (Specs proof) (int i) of
                                   None \<Rightarrow> ([Calculate_call (Left nonexist)], Panicked IndexOutOfRange)
                                 | Some spec \<Rightarrow>
                                     if \<not> ics23_VerifyNonMembership lib spec subroot' p (ks kp) then
                                       ([Calculate_call (Left nonexist),
                                         VerifyNonMembership_call spec subroot' p (ks kp)],
                                        Return (Some (invalid_proof_for_path ks path)))
                                     else
                                       after [Calculate_call (Left nonexist),
                                              VerifyNonMembership_call spec subroot' p (ks kp)]
                                         (VerifyNonMembership_loop ks lib proof root path mpath
                                            (Suc i) ps subroot' subroot'))))
                  | _ \<Rightarrow> ([], Return (Some (Wrap ErrInvalidProof
                                               ''proof is not a nonexistence proof'')))))
          else if int i \<noteq> int (length (Proofs proof)) - 1 then
            (case p of
               None \<Rightarrow> ([], Panicked NilDereference)
             | Some cp \<Rightarrow>
                 (case Proof cp of
                    CommitmentProof_Exist e \<Rightarrow>
                      (case ics23_Calculate lib e of
                         Inl msg \<Rightarrow> ([Calculate_call e], Return (Some (Wrap ErrInvalidProof msg)))
                       | Inr subroot' \<Rightarrow>
                           (case index_at (Specs proof) (int i) of
                              None \<Rightarrow> ([Calculate_call e], Panicked IndexOutOfRange)
                            | Some spec \<Rightarrow>
                                if \<not> ics23_VerifyMembership lib spec subroot' p (ks kp) value then
                                  ([Calculate_call e,
                                    VerifyMembership_call spec subroot' p (ks kp) value],
                                   Return (Some (invalid_proof_for_path ks path)))
                                else
                                  after [Calculate_call e,
                                         VerifyMembership_call spec subroot' p (ks kp) value]
                                    (VerifyNonMembership_loop ks lib proof root path mpath
                                       (Suc i) ps subroot' subroot')))
                  | _ \<Rightarrow> ([], Return (Some (Wrap ErrInvalidProof
                                               ''proof is not an existence proof'')))))
          else
            (case index_at (Specs proof) (int i) of
               None \<Rightarrow> ([], Panicked IndexOutOfRange)
             | Some spec \<Rightarrow>
                 if \<not> ics23_VerifyMembership lib spec (GetHash root) p (ks kp) value then
                   ([VerifyMembership_call spec (GetHash root) p (ks kp) value],
                    Return (Some (invalid_proof_for_path ks path)))
                 else
                   after [VerifyMembership_call spec (GetHash root) p (ks kp) value]
                     (VerifyNonMembership_loop ks lib proof root path mpath
                        (Suc i) ps subroot subroot)))"

definition VerifyNonMembership ::
  "(KeyPath \<Rightarrow> string) \<Rightarrow> ('e, 's) ics23 \<Rightarrow> ('e, 's) MerkleProof \<Rightarrow> MerkleRoot option \<Rightarrow>
   Path option \<Rightarrow> ('e, 's) run" where
  "VerifyNonMembership ks lib proof root path =
     (case ValidateBasic proof of
        Panicked x \<Rightarrow> ([], Panicked x)
      | Return vb \<Rightarrow>
          if vb \<noteq> None \<or> Root_nil_or_empty root \<or> Path_nil_or_empty path then
            ([], Return (Some (Wrap ErrInvalidProof ''empty params or proof'')))
          else
            (case (root, path) of
               (Some r, Some (PathMerkle mpath)) \<Rightarrow>
                 if length (Proofs proof) = length (KeyPaths mpath) then
                   ([], Return (Some (invalid_chained_proof (length (Proofs proof))
                                        (length (KeyPaths mpath)))))
                 else VerifyNonMembership_loop ks lib proof r (PathMerkle mpath) mpath 0
                        (Proofs proof) [] []
             | (Some r, Some (PathOther s e)) \<Rightarrow>
                 ([], Return (Some (Wrap ErrInvalidProof
                                      ''path is not a merkle path for a merkle proof'')))
             | _ \<Rightarrow> ([], Return (Some (Wrap ErrInvalidProof ''empty params or proof'')))))"

section \<open>Connection handshake handlers (x/ibc/03-connection/handler.go)\<close>

text \<open>
  The types of the \<open>sdk\<close> package that the handlers use. Of \<open>sdk.Result\<close> the three
  fields are kept that an error's \<open>Result()\<close> sets (the code, an unsigned 32-bit
  number, the codespace and the log); the others are zero in every result a handler
  builds. \<open>sdk.Result{}\<close> is \<open>Result_zero\<close>. The log line an error renders is the
  package's business and is the parameter \<open>abciLog\<close>.
\<close>

record Result =
  Code :: "32 word"
  Codespace :: string
  Log :: string

definition Result_zero :: Result where
  "Result_zero = \<lparr>Code = 0, Codespace = '''', Log = ''''\<rparr>"

definition IsOK :: "Result \<Rightarrow> bool" where
  "IsOK res = (Code res = 0)"

datatype sdk_Error = NewError string "32 word" string

fun Error_Result :: "(sdk_Error \<Rightarrow> string) \<Rightarrow> sdk_Error \<Rightarrow> Result" where
  "Error_Result abciLog (NewError codespace code msg) =
     \<lparr>Code = code, Codespace = codespace, Log = abciLog (NewError codespace code msg)\<rparr>"

text \<open>
  The four messages, with the fields the handlers read: \<open>'id\<close> is an identifier,
  \<open>'conn\<close> a connection, \<open>'prf\<close> a commitment proof and \<open>'h\<close> a timeout height.
\<close>

record ('id, 'conn, 'h) MsgOpenInit =
  Init_ConnectionID :: 'id
  Init_Connection :: 'conn
  Init_CounterpartyClient :: 'id
  Init_NextTimeout :: 'h

record ('id, 'conn, 'prf, 'h) MsgOpenTry =
  Try_Proofs :: "'prf list"
  Try_ConnectionID :: 'id
  Try_Connection :: 'conn
  Try_CounterpartyClient :: 'id
  Try_Timeout :: 'h
  Try_NextTimeout :: 'h

record ('id, 'prf, 'h) MsgOpenAck =
  Ack_Proofs :: "'prf list"
  Ack_ConnectionID :: 'id
  Ack_Timeout :: 'h
  Ack_NextTimeout :: 'h

record ('id, 'prf, 'h) MsgOpenConfirm =
  Confirm_Proofs :: "'prf list"
  Confirm_ConnectionID :: 'id
  Confirm_Timeout :: 'h

text \<open>
  The handshaker \<open>man\<close> is a parameter: each of its four operations takes the context
  and the message's fields and returns the context it leaves behind, the object it
  made and its error (\<open>None\<close> for \<open>nil\<close>, else the text \<open>err.Error()\<close> gives).
\<close>

record ('ctx, 'id, 'conn, 'prf, 'h, 'obj) Handshaker =
  OpenInit :: "'ctx \<Rightarrow> 'id \<Rightarrow> 'conn \<Rightarrow> 'id \<Rightarrow> 'h \<Rightarrow> 'ctx \<times> 'obj \<times> string option"
  OpenTry ::
    "'ctx \<Rightarrow> 'prf list \<Rightarrow> 'id \<Rightarrow> 'conn \<Rightarrow> 'id \<Rightarrow> 'h \<Rightarrow> 'h \<Rightarrow> 'ctx \<times> 'obj \<times> string option"
  OpenAck :: "'ctx \<Rightarrow> 'prf list \<Rightarrow> 'id \<Rightarrow> 'h \<Rightarrow> 'h \<Rightarrow> 'ctx \<times> 'obj \<times> string option"
  OpenConfirm :: "'ctx \<Rightarrow> 'prf list \<Rightarrow> 'id \<Rightarrow> 'h \<Rightarrow> 'ctx \<times> 'obj \<times> string option"

definition HandleMsgOpenInit ::
  "(sdk_Error \<Rightarrow> string) \<Rightarrow> 'ctx \<Rightarrow> ('id, 'conn, 'h) MsgOpenInit \<Rightarrow>
   ('ctx, 'id, 'conn, 'prf, 'h, 'obj) Handshaker \<Rightarrow> 'ctx \<times> Result" where
  "HandleMsgOpenInit abciLog ctx msg man =
     (case OpenInit man ctx (Init_ConnectionID msg) (Init_Connection msg)
             (Init_CounterpartyClient msg) (Init_NextTimeout msg) of
        (ctx', obj, Some err) \<Rightarrow> (ctx', Error_Result abciLog (NewError ''ibc'' 100 err))
      | (ctx', obj, None) \<Rightarrow> (ctx', Result_zero))"

definition HandleMsgOpenTry ::
  "(sdk_Error \<Rightarrow> string) \<Rightarrow> 'ctx \<Rightarrow> ('id, 'conn, 'prf, 'h) MsgOpenTry \<Rightarrow>
   ('ctx, 'id, 'conn, 'prf, 'h, 'obj) Handshaker \<Rightarrow> 'ctx \<times> Result" where
  "HandleMsgOpenTry abciLog ctx msg man =
     (case OpenTry man ctx (Try_Proofs msg) (Try_ConnectionID msg) (Try_Connection msg)
             (Try_CounterpartyClient msg) (Try_Timeout msg) (Try_NextTimeout msg) of
        (ctx', obj, Some err) \<Rightarrow> (ctx', Error_Result abciLog (NewError ''ibc'' 200 err))
      | (ctx', obj, None) \<Rightarrow> (ctx', Result_zero))"

definition HandleMsgOpenAck ::
  "(sdk_Error \<Rightarrow> string) \<Rightarrow> 'ctx \<Rightarrow> ('id, 'prf, 'h) MsgOpenAck \<Rightarrow>
   ('ctx, 'id, 'conn, 'prf, 'h, 'obj) Handshaker \<Rightarrow> 'ctx \<times> Result" where
  "HandleMsgOpenAck abciLog ctx msg man =
     (case OpenAck man ctx (Ack_Proofs msg) (Ack_ConnectionID msg) (Ack_Timeout msg)
             (Ack_NextTimeout msg) of
        (ctx', obj, Some err) \<Rightarrow> (ctx', Error_Result abciLog (NewError ''ibc'' 300 err))
      | (ctx', obj, None) \<Rightarrow> (ctx', Result_zero))"

definition HandleMsgOpenConfirm ::
  "(sdk_Error \<Rightarrow> string) \<Rightarrow> 'ctx \<Rightarrow> ('id, 'prf, 'h) MsgOpenConfirm \<Rightarrow>
   ('ctx, 'id, 'conn, 'prf, 'h, 'obj) Handshaker \<Rightarrow> 'ctx \<times> Result" where
  "HandleMsgOpenConfirm abciLog ctx msg man =
     (case OpenConfirm man ctx (Confirm_Proofs msg) (Confirm_ConnectionID msg)
             (Confirm_Timeout msg) of
        (ctx', obj, Some err) \<Rightarrow> (ctx', Error_Result abciLog (NewError ''ibc'' 400 err))
      | (ctx', obj, None) \<Rightarrow> (ctx', Result_zero))"

section \<open>A small library and inputs for evaluation\<close>

text \<open>
  The theorems below hold for every rendering of key paths and every ics23 library.
  To evaluate the code on concrete inputs, \<open>plain_String\<close> renders a key path as its
  names, each after a \<open>/\<close>, and \<open>toy_lib\<close> is a single-tree verifier in which an
  existence proof names the key, the value and the root it proves them under: it
  computes that root, accepts a membership check exactly when root, key and value are
  the proof's own, and accepts a non-membership check when the key is the proof's and
  the root is the one its left neighbour computes.
\<close>

definition plain_String :: "KeyPath \<Rightarrow> string" where
  "plain_String pth = concat (map (\<lambda>k. case k of MkKey name enc \<Rightarrow> ''/'' @ name) pth)"

datatype toy_exist = Toy_Exist (toy_key: bytes) (toy_value: bytes) (toy_root: bytes)

definition toy_lib :: "(toy_exist, nat) ics23" where
  "toy_lib =
     \<lparr>ics23_Calculate = (\<lambda>e. Inr (toy_root e)),
      ics23_VerifyMembership = (\<lambda>spec root p key value.
        case p of
          None \<Rightarrow> False
        | Some cp \<Rightarrow>
            (case Proof cp of
               CommitmentProof_Exist e \<Rightarrow> toy_root e = root \<and> toy_key e = key \<and> toy_value e = value
             | _ \<Rightarrow> False)),
      ics23_VerifyNonMembership = (\<lambda>spec root p key.
        case p of
          None \<Rightarrow> False
        | Some cp \<Rightarrow>
            (case Proof cp of
               CommitmentProof_Nonexist (Some ne) \<Rightarrow> NonExist_Key ne = key \<and> toy_root (Left ne) = root
             | _ \<Rightarrow> False))\<rparr>"

definition exist_proof :: "bytes \<Rightarrow> bytes \<Rightarrow> bytes \<Rightarrow> toy_exist CommitmentProof option" where
  "exist_proof key value root = Some \<lparr>Proof = CommitmentProof_Exist (Toy_Exist key value root)\<rparr>"

definition nonexist_proof :: "bytes \<Rightarrow> toy_exist \<Rightarrow> toy_exist CommitmentProof option" where
  "nonexist_proof key left =
     Some \<lparr>Proof = CommitmentProof_Nonexist (Some \<lparr>NonExist_Key = key, Left = left, Right = left\<rparr>)\<rparr>"

text \<open>
  The specification's two scenarios: the pair \<open>(a, v1)\<close> under the root \<open>h\<close>, and
  the two-level chain that proves \<open>(b, v1)\<close> under the subtree root \<open>r0\<close> and
  \<open>(a, r0)\<close> under \<open>h\<close>, against the root-first path \<open>a, b\<close>.
\<close>

definition one_level_proof :: "(toy_exist, nat) MerkleProof" where
  "one_level_proof = \<lparr>Proofs = [exist_proof ''/a'' ''v1'' ''h''], Specs = [Some 0]\<rparr>"

definition one_level_path :: MerklePath where
  "one_level_path = NewMerklePath [''a'']"

definition two_level_proof :: "(toy_exist, nat) MerkleProof" where
  "two_level_proof =
     \<lparr>Proofs = [exist_proof ''/b'' ''v1'' ''r0'', exist_proof ''/a'' ''r0'' ''h''],
      Specs = [Some 0, Some 1]\<rparr>"

definition two_level_path :: MerklePath where
  "two_level_path = \<lparr>KeyPaths = [[MkKey ''a'' KeyEncodingURL], [MkKey ''b'' KeyEncodingURL]]\<rparr>"

text \<open>A proof list one longer than the spec list, and a one-proof absence chain.\<close>

definition two_proofs_one_spec :: "(toy_exist, nat) MerkleProof" where
  "two_proofs_one_spec =
     \<lparr>Proofs = [exist_proof ''/b'' ''v1'' ''r0'', exist_proof ''/a'' ''r0'' ''h''],
      Specs = [Some 0]\<rparr>"

definition absence_proof :: "(toy_exist, nat) MerkleProof" where
  "absence_proof =
     \<lparr>Proofs = [nonexist_proof ''/b'' (Toy_Exist ''/a0'' ''x'' ''r0'')], Specs = [Some 0]\<rparr>"

text \<open>
  A path validator in the place of \<open>host.DefaultPathValidator\<close>, which rejects the
  blank path string and accepts every other.
\<close>

definition blank_path_validator :: "string \<Rightarrow> error option" where
  "blank_path_validator path =
     (if path = '''' then Some (Wrap ErrInvalidPath ''path cannot be blank'') else None)"

text \<open>
  A handshaker whose context counts the handshakes it has stored: each operation fails
  on the empty connection identifier and stores the handshake otherwise. An error's log
  line is its message.
\<close>

definition toy_op :: "nat \<Rightarrow> string \<Rightarrow> nat \<times> unit \<times> string option" where
  "toy_op ctx connectionID =
     (if connectionID = '''' then (ctx, (), Some ''invalid connection id'')
      else (Suc ctx, (), None))"

definition toy_man :: "(nat, string, string, unit, nat, unit) Handshaker" where
  "toy_man =
     \<lparr>OpenInit = (\<lambda>ctx connectionID connection counterpartyClient nextTimeout.
        toy_op ctx connectionID),
      OpenTry = (\<lambda>ctx proofs connectionID connection counterpartyClient timeout nextTimeout.
        toy_op ctx connectionID),
      OpenAck = (\<lambda>ctx proofs connectionID timeout nextTimeout. toy_op ctx connectionID),
      OpenConfirm = (\<lambda>ctx proofs connectionID timeout. toy_op ctx connectionID)\<rparr>"

fun toy_abciLog :: "sdk_Error \<Rightarrow> string" where
  "toy_abciLog (NewError codespace code msg) = msg"

section \<open>Slice indexing\<close>

lemma index_at_Some: "i < length xs \<Longrightarrow> index_at xs (int i) = Some (xs ! i)"
  by (simp add: index_at_def)

lemma index_at_None: "length xs \<le> i \<Longrightarrow> index_at xs (int i) = None"
  by (simp add: index_at_def)

lemma index_at_neg: "i < 0 \<Longrightarrow> index_at xs i = None"
  by (simp add: index_at_def)

section \<open>IsEmpty and ValidateBasic: when they return and when they panic\<close>

lemma IsEmpty_loop_in_range:
  "i + length ps \<le> length specs \<Longrightarrow> \<exists>b. IsEmpty_loop specs i ps = Return b"
proof (induction ps arbitrary: i)
  case Nil
  then show ?case by auto
next
  case (Cons p ps)
  then have "i < length specs" by simp
  moreover have "\<exists>b. IsEmpty_loop specs (Suc i) ps = Return b"
    using Cons by simp
  ultimately show ?case by (auto simp: index_at_Some)
qed

lemma IsEmpty_loop_panics:
  "i \<le> length specs \<Longrightarrow> length specs < i + length ps \<Longrightarrow>
   None \<notin> set (take (Suc (length specs - i)) ps) \<Longrightarrow> None \<notin> set (drop i specs) \<Longrightarrow>
   IsEmpty_loop specs i ps = Panicked IndexOutOfRange"
proof (induction ps arbitrary: i)
  case Nil
  then show ?case by simp
next
  case (Cons p ps)
  from Cons.prems have p: "p \<noteq> None" by (cases p) auto
  show ?case
  proof (cases "i = length specs")
    case True
    with Cons.prems p show ?thesis by (simp add: index_at_None)
  next
    case False
    with Cons.prems have lt: "i < length specs" by simp
    then have d: "drop i specs = specs ! i # drop (Suc i) specs"
      by (simp add: Cons_nth_drop_Suc)
    have s: "Suc (length specs - i) = Suc (Suc (length specs - Suc i))" using lt by simp
    have ih: "IsEmpty_loop specs (Suc i) ps = Panicked IndexOutOfRange"
      using Cons.prems lt d s by (intro Cons.IH) auto
    have "specs ! i \<noteq> None" using Cons.prems(4) d by (cases "specs ! i") auto
    then show ?thesis using p lt ih by (auto simp: index_at_Some)
  qed
qed

lemma IsEmpty_loop_False:
  "IsEmpty_loop specs i ps = Return False \<Longrightarrow> i \<le> length specs \<Longrightarrow>
   i + length ps \<le> length specs \<and> None \<notin> set ps \<and> None \<notin> set (take (length ps) (drop i specs))"
proof (induction ps arbitrary: i)
  case Nil
  then show ?case by simp
next
  case (Cons p ps)
  from Cons.prems have p: "p \<noteq> None" by (auto split: if_splits)
  from Cons.prems p have lt: "i < length specs"
    by (auto simp: index_at_def split: if_splits)
  from Cons.prems p lt have s: "specs ! i \<noteq> None" and r: "IsEmpty_loop specs (Suc i) ps = Return False"
    by (auto simp: index_at_Some split: if_splits)
  have d: "drop i specs = specs ! i # drop (Suc i) specs"
    using lt by (simp add: Cons_nth_drop_Suc)
  from Cons.IH[OF r] lt p s d show ?case by auto
qed

lemma IsEmpty_longer_proofs:
  assumes "Specs proof \<noteq> []"
      and "length (Specs proof) < length (Proofs proof)"
      and "None \<notin> set (take (Suc (length (Specs proof))) (Proofs proof))"
      and "None \<notin> set (Specs proof)"
  shows "IsEmpty proof = Panicked IndexOutOfRange"
proof -
  have "IsEmpty_loop (Specs proof) 0 (Proofs proof) = Panicked IndexOutOfRange"
    using assms by (intro IsEmpty_loop_panics) auto
  with assms show ?thesis by (auto simp: IsEmpty_def)
qed

lemma IsEmpty_returns:
  "length (Proofs proof) \<le> length (Specs proof) \<Longrightarrow> \<exists>b. IsEmpty proof = Return b"
  using IsEmpty_loop_in_range[of 0 "Proofs proof" "Specs proof"]
  by (auto simp: IsEmpty_def)

lemma ValidateBasic_panics:
  "IsEmpty proof = Panicked x \<Longrightarrow> ValidateBasic proof = Panicked x"
  by (simp add: ValidateBasic_def)

lemma ValidateBasic_IsEmpty:
  "IsEmpty proof = Return True \<Longrightarrow> ValidateBasic proof = Return (Some ErrInvalidProof)"
  by (simp add: ValidateBasic_def)

lemma ValidateBasic_lengths:
  "IsEmpty proof = Return b \<Longrightarrow> length (Proofs proof) \<noteq> length (Specs proof) \<Longrightarrow>
   ValidateBasic proof = Return (Some ErrInvalidProof)"
  by (simp add: ValidateBasic_def)

lemma ValidateBasic_kind:
  "ValidateBasic proof = Return (Some err) \<Longrightarrow> err = ErrInvalidProof"
  by (auto simp: ValidateBasic_def split: outcome.splits if_splits)

lemma ValidateBasic_None:
  assumes "ValidateBasic proof = Return None"
  shows "Proofs proof \<noteq> [] \<and> length (Proofs proof) = length (Specs proof) \<and>
         None \<notin> set (Proofs proof) \<and> None \<notin> set (Specs proof)"
proof -
  from assms have e: "IsEmpty proof = Return False"
    and l: "length (Proofs proof) = length (Specs proof)"
    by (auto simp: ValidateBasic_def split: outcome.splits if_splits)
  from e have n: "Proofs proof \<noteq> []"
    and lp: "IsEmpty_loop (Specs proof) 0 (Proofs proof) = Return False"
    by (auto simp: IsEmpty_def split: if_splits)
  from IsEmpty_loop_False[OF lp] l n show ?thesis by simp
qed

text \<open>
  C8. Claim: \<open>IsEmpty\<close> and \<open>ValidateBasic\<close> evaluate to a result without any
  out-of-bounds list access, also when \<open>Proofs\<close> is longer than \<open>Specs\<close>. The code does
  not: when \<open>Specs\<close> is not empty and shorter than \<open>Proofs\<close>, and no entry up to the
  first index past \<open>Specs\<close> is \<open>nil\<close>, the scan reads \<open>Specs\<close> past its end and both
  functions panic with an index out of range.
\<close>

theorem IsEmpty_index_out_of_range:
  assumes "Specs proof \<noteq> []"
      and "length (Specs proof) < length (Proofs proof)"
      and "None \<notin> set (take (Suc (length (Specs proof))) (Proofs proof))"
      and "None \<notin> set (Specs proof)"
  shows "IsEmpty proof = Panicked IndexOutOfRange \<and> ValidateBasic proof = Panicked IndexOutOfRange"
  using IsEmpty_longer_proofs[OF assms] by (simp add: ValidateBasic_panics)

theorem IsEmpty_index_out_of_range_witness:
  "Specs two_proofs_one_spec \<noteq> [] \<and>
   length (Specs two_proofs_one_spec) < length (Proofs two_proofs_one_spec) \<and>
   IsEmpty two_proofs_one_spec = Panicked IndexOutOfRange \<and>
   ValidateBasic two_proofs_one_spec = Panicked IndexOutOfRange"
  using IsEmpty_index_out_of_range[of two_proofs_one_spec]
  by (simp add: two_proofs_one_spec_def exist_proof_def)

section \<open>The precondition checks of the two verifications\<close>

lemma kind_of_invalid_proof_for_path [simp]:
  "kind_of (invalid_proof_for_path ks path) = InvalidProof"
  by (simp add: invalid_proof_for_path_def)

lemma kind_of_invalid_chained_proof [simp]:
  "kind_of (invalid_chained_proof n m) = InvalidProof"
  by (simp add: invalid_chained_proof_def)

lemma VerifyMembership_panics:
  "ValidateBasic proof = Panicked x \<Longrightarrow>
   VerifyMembership ks lib proof root path value = ([], Panicked x)"
  by (simp add: VerifyMembership_def)

lemma VerifyNonMembership_panics:
  "ValidateBasic proof = Panicked x \<Longrightarrow>
   VerifyNonMembership ks lib proof root path = ([], Panicked x)"
  by (simp add: VerifyNonMembership_def)

lemma VerifyMembership_empty_params:
  assumes "ValidateBasic proof = Return vb"
      and "vb \<noteq> None \<or> Root_nil_or_empty root \<or> Path_nil_or_empty path \<or> length value = 0"
  shows "VerifyMembership ks lib proof root path value =
           ([], Return (Some (Wrap ErrInvalidProof ''empty params or proof'')))"
  using assms by (simp add: VerifyMembership_def)

lemma VerifyNonMembership_empty_params:
  assumes "ValidateBasic proof = Return vb"
      and "vb \<noteq> None \<or> Root_nil_or_empty root \<or> Path_nil_or_empty path"
  shows "VerifyNonMembership ks lib proof root path =
           ([], Return (Some (Wrap ErrInvalidProof ''empty params or proof'')))"
  using assms by (simp add: VerifyNonMembership_def)

lemma VerifyMembership_other_path:
  assumes "ValidateBasic proof = Return vb"
  shows "\<exists>err. VerifyMembership ks lib proof root (Some (PathOther s e)) value =
                 ([], Return (Some err)) \<and> kind_of err = InvalidProof"
  using assms by (cases root) (auto simp: VerifyMembership_def Root_nil_or_empty_def)

lemma VerifyNonMembership_other_path:
  assumes "ValidateBasic proof = Return vb"
  shows "\<exists>err. VerifyNonMembership ks lib proof root (Some (PathOther s e)) =
                 ([], Return (Some err)) \<and> kind_of err = InvalidProof"
  using assms by (cases root) (auto simp: VerifyNonMembership_def Root_nil_or_empty_def)

lemma VerifyMembership_matching_lengths:
  assumes "length (Proofs proof) = length (KeyPaths mpath)"
  shows "(\<exists>x. VerifyMembership ks lib proof root (Some (PathMerkle mpath)) value = ([], Panicked x)) \<or>
         (\<exists>err. VerifyMembership ks lib proof root (Some (PathMerkle mpath)) value =
                   ([], Return (Some err)) \<and> kind_of err = InvalidProof)"
proof (cases "ValidateBasic proof")
  case (Panicked x)
  then show ?thesis by (simp add: VerifyMembership_def)
next
  case (Return vb)
  with assms show ?thesis
    by (cases root) (auto simp: VerifyMembership_def Root_nil_or_empty_def)
qed

lemma VerifyNonMembership_matching_lengths:
  assumes "length (Proofs proof) = length (KeyPaths mpath)"
  shows "(\<exists>x. VerifyNonMembership ks lib proof root (Some (PathMerkle mpath)) = ([], Panicked x)) \<or>
         (\<exists>err. VerifyNonMembership ks lib proof root (Some (PathMerkle mpath)) =
                   ([], Return (Some err)) \<and> kind_of err = InvalidProof)"
proof (cases "ValidateBasic proof")
  case (Panicked x)
  then show ?thesis by (simp add: VerifyNonMembership_def)
next
  case (Return vb)
  with assms show ?thesis
    by (cases root) (auto simp: VerifyNonMembership_def Root_nil_or_empty_def)
qed

text \<open>
  C2, as amended. When \<open>ValidateBasic\<close> returns, \<open>VerifyMembership\<close> fails with an
  error of kind \<open>InvalidProof\<close>, having made no call to the ics23 library, whenever
  \<open>ValidateBasic\<close> returned an error, the root is \<open>nil\<close> or empty, the path is
  \<open>nil\<close> or empty, the value has length zero, or the path is not a \<open>MerklePath\<close>:
  the error for the last case too is \<open>ErrInvalidProof\<close>, wrapped.
\<close>

theorem VerifyMembership_preconditions:
  assumes "ValidateBasic proof = Return vb"
      and "vb \<noteq> None \<or> Root_nil_or_empty root \<or> Path_nil_or_empty path \<or> length value = 0 \<or>
           (\<exists>s e. path = Some (PathOther s e))"
  shows "\<exists>err. VerifyMembership ks lib proof root path value = ([], Return (Some err)) \<and>
               kind_of err = InvalidProof"
proof (cases "vb \<noteq> None \<or> Root_nil_or_empty root \<or> Path_nil_or_empty path \<or> length value = 0")
  case True
  from VerifyMembership_empty_params[OF assms(1) True] show ?thesis by simp
next
  case False
  with assms(2) obtain s e where "path = Some (PathOther s e)" by blast
  with VerifyMembership_other_path[OF assms(1)] show ?thesis by simp
qed

theorem VerifyMembership_preconditions_witness:
  "ValidateBasic one_level_proof = Return None \<and>
   VerifyMembership plain_String toy_lib one_level_proof None (Some (PathMerkle one_level_path)) ''v1'' =
     ([], Return (Some (Wrap ErrInvalidProof ''empty params or proof''))) \<and>
   VerifyMembership plain_String toy_lib one_level_proof (Some \<lparr>Hash = ''h''\<rparr>)
       (Some (PathOther ''a'' False)) ''v1'' =
     ([], Return (Some (Wrap ErrInvalidProof ''path is not a merkle path for a merkle proof'')))"
proof -
  have v: "ValidateBasic one_level_proof = Return None"
    by (simp add: ValidateBasic_def IsEmpty_def one_level_proof_def exist_proof_def index_at_def)
  have h1: "None \<noteq> (None :: error option) \<or> Root_nil_or_empty None \<or>
            Path_nil_or_empty (Some (PathMerkle one_level_path)) \<or> length ''v1'' = 0 \<or>
            (\<exists>s e. Some (PathMerkle one_level_path) = Some (PathOther s e))"
    by (simp add: Root_nil_or_empty_def)
  have h2: "None \<noteq> (None :: error option) \<or> Root_nil_or_empty (Some \<lparr>Hash = ''h''\<rparr>) \<or>
            Path_nil_or_empty (Some (PathOther ''a'' False)) \<or> length ''v1'' = 0 \<or>
            (\<exists>s e. Some (PathOther ''a'' False) = Some (PathOther s e))"
    by blast
  note VerifyMembership_preconditions[OF v h1, of plain_String toy_lib]
    VerifyMembership_preconditions[OF v h2, of plain_String toy_lib]
  then show ?thesis using v
    by (simp add: VerifyMembership_def Root_nil_or_empty_def Path_nil_or_empty_def
        MerkleRoot_IsEmpty_def GetHash_def)
qed

text \<open>
  C2, as the claim states it, fails: on a path that is not a \<open>MerklePath\<close> the error is
  \<open>ErrInvalidProof\<close> wrapped with a message, of kind \<open>InvalidProof\<close> and not
  \<open>NotAMerklePath\<close>.
\<close>

theorem VerifyMembership_not_a_merkle_path_counterexample:
  "VerifyMembership plain_String toy_lib one_level_proof (Some \<lparr>Hash = ''h''\<rparr>)
       (Some (PathOther ''a'' False)) ''v1'' =
     ([], Return (Some (Wrap ErrInvalidProof ''path is not a merkle path for a merkle proof''))) \<and>
   kind_of (Wrap ErrInvalidProof ''path is not a merkle path for a merkle proof'') = InvalidProof \<and>
   kind_of (Wrap ErrInvalidProof ''path is not a merkle path for a merkle proof'') \<noteq> NotAMerklePath"
  by (simp add: VerifyMembership_def ValidateBasic_def IsEmpty_def one_level_proof_def
      exist_proof_def index_at_def Root_nil_or_empty_def Path_nil_or_empty_def
      MerkleRoot_IsEmpty_def GetHash_def)

text \<open>
  C4. Claim: when the sub-proof list and the spec list differ in length,
  \<open>ValidateBasic\<close> fails with \<open>InvalidProof\<close> and both verifications reject the call
  before any cryptographic work. The code does so when \<open>IsEmpty\<close> returns; when the
  spec list is the shorter one and no entry met is \<open>nil\<close>, \<open>IsEmpty\<close> panics, and so
  do \<open>ValidateBasic\<close> and both verifications, which return no error at all.
\<close>

theorem ValidateBasic_length_mismatch_panics:
  assumes "Specs proof \<noteq> []"
      and "length (Specs proof) < length (Proofs proof)"
      and "None \<notin> set (take (Suc (length (Specs proof))) (Proofs proof))"
      and "None \<notin> set (Specs proof)"
  shows "length (Proofs proof) \<noteq> length (Specs proof) \<and>
         ValidateBasic proof \<noteq> Return (Some ErrInvalidProof) \<and>
         VerifyMembership ks lib proof root path value = ([], Panicked IndexOutOfRange) \<and>
         VerifyNonMembership ks lib proof root path = ([], Panicked IndexOutOfRange)"
proof -
  have "ValidateBasic proof = Panicked IndexOutOfRange"
    using IsEmpty_longer_proofs[OF assms] by (rule ValidateBasic_panics)
  with assms(2) show ?thesis
    by (simp add: VerifyMembership_panics VerifyNonMembership_panics)
qed

theorem ValidateBasic_length_mismatch_panics_witness:
  "length (Proofs two_proofs_one_spec) \<noteq> length (Specs two_proofs_one_spec) \<and>
   ValidateBasic two_proofs_one_spec \<noteq> Return (Some ErrInvalidProof) \<and>
   VerifyMembership plain_String toy_lib two_proofs_one_spec (Some \<lparr>Hash = ''h''\<rparr>)
       (Some (PathMerkle two_level_path)) ''v1'' = ([], Panicked IndexOutOfRange) \<and>
   VerifyNonMembership plain_String toy_lib two_proofs_one_spec (Some \<lparr>Hash = ''h''\<rparr>)
       (Some (PathMerkle two_level_path)) = ([], Panicked IndexOutOfRange)"
  using ValidateBasic_length_mismatch_panics[of two_proofs_one_spec plain_String toy_lib
      "Some \<lparr>Hash = ''h''\<rparr>" "Some (PathMerkle two_level_path)" "''v1''"]
  by (simp add: two_proofs_one_spec_def exist_proof_def)

text \<open>
  What the code does for C4 where \<open>IsEmpty\<close> returns: a length mismatch, or an empty
  proof, makes \<open>ValidateBasic\<close> return \<open>ErrInvalidProof\<close> and both verifications
  fail with no call to the library.
\<close>

lemma ValidateBasic_rejects:
  assumes "IsEmpty proof = Return b"
      and "b \<or> length (Proofs proof) \<noteq> length (Specs proof)"
  shows "ValidateBasic proof = Return (Some ErrInvalidProof)"
    and "VerifyMembership ks lib proof root path value =
           ([], Return (Some (Wrap ErrInvalidProof ''empty params or proof'')))"
    and "VerifyNonMembership ks lib proof root path =
           ([], Return (Some (Wrap ErrInvalidProof ''empty params or proof'')))"
proof -
  show v: "ValidateBasic proof = Return (Some ErrInvalidProof)"
    using assms by (auto simp: ValidateBasic_def)
  show "VerifyMembership ks lib proof root path value =
           ([], Return (Some (Wrap ErrInvalidProof ''empty params or proof'')))"
    using VerifyMembership_empty_params[OF v] by simp
  show "VerifyNonMembership ks lib proof root path =
           ([], Return (Some (Wrap ErrInvalidProof ''empty params or proof'')))"
    using VerifyNonMembership_empty_params[OF v] by simp
qed

lemma shorter_proof_list_rejected:
  assumes "length (Proofs proof) < length (Specs proof)"
  shows "ValidateBasic proof = Return (Some ErrInvalidProof)"
proof -
  from assms obtain b where "IsEmpty proof = Return b"
    using IsEmpty_returns[of "proof"] by auto
  with assms show ?thesis by (simp add: ValidateBasic_lengths)
qed

section \<open>The verification loops\<close>

lemma after_fst [simp]: "fst (after cs r) = cs @ fst r"
  by (simp add: after_def)

lemma after_snd [simp]: "snd (after cs r) = snd r"
  by (simp add: after_def)

lemma reverse_index_in_range:
  "i < length kps \<Longrightarrow>
   index_at kps (int (length kps) - int i - 1) = Some (kps ! (length kps - i - 1))"
  by (auto simp: index_at_def nat_diff_distrib intro!: arg_cong[where f="(!) kps"])

lemma reverse_index_out_of_range:
  "length kps \<le> i \<Longrightarrow> index_at kps (int (length kps) - int i - 1) = None"
  by (simp add: index_at_def)

text \<open>The membership loop succeeds only if every reverse index it reads is in range.\<close>

lemma VerifyMembership_loop_success_length:
  "snd (VerifyMembership_loop ks lib proof root path mpath i ps value) = Return None \<Longrightarrow>
   ps \<noteq> [] \<Longrightarrow> i + length ps \<le> length (KeyPaths mpath)"
proof (induction ps arbitrary: i "value")
  case Nil
  then show ?case by simp
next
  case (Cons p ps)
  have i: "i < length (KeyPaths mpath)"
  proof (rule ccontr)
    assume "\<not> i < length (KeyPaths mpath)"
    then have "index_at (KeyPaths mpath) (int (length (KeyPaths mpath)) - int i - 1) = None"
      by (simp add: reverse_index_out_of_range)
    with Cons.prems(1) show False by simp
  qed
  show ?case
  proof (cases ps)
    case Nil
    with i show ?thesis by simp
  next
    case (Cons q qs)
    then have ne: "ps \<noteq> []" by simp
    have "\<exists>v. snd (VerifyMembership_loop ks lib proof root path mpath (Suc i) ps v) = Return None"
      using Cons.prems(1) i
      by (auto simp: reverse_index_in_range
          split: option.splits isCommitmentProof_Proof.splits sum.splits if_splits)
    then obtain v where
      "snd (VerifyMembership_loop ks lib proof root path mpath (Suc i) ps v) = Return None" ..
    from Cons.IH[OF this ne] show ?thesis by simp
  qed
qed

lemma VerifyMembership_success_length:
  assumes "snd (VerifyMembership ks lib proof root (Some (PathMerkle mpath)) value) = Return None"
  shows "length (Proofs proof) < length (KeyPaths mpath)"
proof -
  from assms obtain vb where vb: "ValidateBasic proof = Return vb"
    by (cases "ValidateBasic proof") (auto simp: VerifyMembership_def)
  from assms vb have pre: "vb = None" "\<not> Root_nil_or_empty root"
    by (auto simp: VerifyMembership_def split: if_splits)
  then obtain r where r: "root = Some r"
    by (cases root) (auto simp: Root_nil_or_empty_def)
  from assms vb pre r have ne: "length (Proofs proof) \<noteq> length (KeyPaths mpath)"
    and l: "snd (VerifyMembership_loop ks lib proof r (PathMerkle mpath) mpath 0 (Proofs proof) value)
            = Return None"
    by (auto simp: VerifyMembership_def split: if_splits)
  from vb pre have "Proofs proof \<noteq> []"
    using ValidateBasic_None[of "proof"] by simp
  from VerifyMembership_loop_success_length[OF l this] ne show ?thesis by simp
qed

text \<open>
  C1. Claim: for a valid chained membership proof of length N over N matching path
  levels, \<open>VerifyMembership\<close> returns success against the right root and value. The
  code never does: when the proof list and the path have the same length it returns
  the error \<open>invalid chained proof\<close> (or fails earlier), whatever the proof.
\<close>

theorem VerifyMembership_rejects_matching_lengths:
  assumes "length (Proofs proof) = length (KeyPaths mpath)"
  shows "snd (VerifyMembership ks lib proof root (Some (PathMerkle mpath)) value) \<noteq> Return None"
  using VerifyMembership_matching_lengths[OF assms, of ks lib root "value"] by auto

theorem VerifyMembership_rejects_matching_lengths_witness:
  "length (Proofs one_level_proof) = length (KeyPaths one_level_path) \<and>
   snd (VerifyMembership plain_String toy_lib one_level_proof (Some \<lparr>Hash = ''h''\<rparr>)
          (Some (PathMerkle one_level_path)) ''v1'') \<noteq> Return None \<and>
   VerifyMembership plain_String toy_lib one_level_proof (Some \<lparr>Hash = ''h''\<rparr>)
       (Some (PathMerkle one_level_path)) ''v1'' =
     ([], Return (Some (invalid_chained_proof 1 1))) \<and>
   VerifyMembership plain_String toy_lib two_level_proof (Some \<lparr>Hash = ''h''\<rparr>)
       (Some (PathMerkle two_level_path)) ''v1'' =
     ([], Return (Some (invalid_chained_proof 2 2)))"
proof -
  have l: "length (Proofs one_level_proof) = length (KeyPaths one_level_path)"
    by (simp add: one_level_proof_def one_level_path_def NewMerklePath_def)
  note VerifyMembership_rejects_matching_lengths[OF l, of plain_String toy_lib
      "Some \<lparr>Hash = ''h''\<rparr>" "''v1''"]
  then show ?thesis using l
    by (simp add: VerifyMembership_def ValidateBasic_def IsEmpty_def one_level_proof_def
        two_level_proof_def one_level_path_def two_level_path_def NewMerklePath_def
        exist_proof_def index_at_def Root_nil_or_empty_def Path_nil_or_empty_def
        MerkleRoot_IsEmpty_def MerklePath_IsEmpty_def GetHash_def invalid_chained_proof_def)
qed

text \<open>
  C9. Claim: on every input that passes the precondition checks, also one whose proof
  list is longer than the path's \<open>KeyPaths\<close>, every list access in the loop stays in
  bounds. The code does not: once the index reaches \<open>len(KeyPaths)\<close> the reverse index
  \<open>len(KeyPaths) - i - 1\<close> is negative and either loop panics, before it looks at the
  sub-proof.
\<close>

theorem verification_loop_reverse_index_panics:
  assumes "length (KeyPaths mpath) \<le> i"
  shows "VerifyMembership_loop ks lib proof root path mpath i (p # ps) value =
           ([], Panicked IndexOutOfRange) \<and>
         VerifyNonMembership_loop ks lib proof root path mpath i (p # ps) value subroot =
           ([], Panicked IndexOutOfRange)"
  using assms by (simp add: reverse_index_out_of_range)

theorem verification_loop_reverse_index_panics_witness:
  "length (KeyPaths \<lparr>KeyPaths = [[MkKey ''b'' KeyEncodingURL]]\<rparr>) \<le> 1 \<and>
   VerifyMembership_loop plain_String toy_lib two_level_proof \<lparr>Hash = ''h''\<rparr>
       (PathMerkle \<lparr>KeyPaths = [[MkKey ''b'' KeyEncodingURL]]\<rparr>)
       \<lparr>KeyPaths = [[MkKey ''b'' KeyEncodingURL]]\<rparr> 1 [exist_proof ''/a'' ''r0'' ''h''] ''r0'' =
     ([], Panicked IndexOutOfRange) \<and>
   ValidateBasic two_level_proof = Return None \<and>
   VerifyMembership plain_String toy_lib two_level_proof (Some \<lparr>Hash = ''h''\<rparr>)
       (Some (PathMerkle \<lparr>KeyPaths = [[MkKey ''b'' KeyEncodingURL]]\<rparr>)) ''v1'' =
     ([Calculate_call (Toy_Exist ''/b'' ''v1'' ''r0''),
       VerifyMembership_call (Some 0) ''r0'' (exist_proof ''/b'' ''v1'' ''r0'') ''/b'' ''v1''],
      Panicked IndexOutOfRange)"
proof -
  have l: "length (KeyPaths \<lparr>KeyPaths = [[MkKey ''b'' KeyEncodingURL]]\<rparr>) \<le> 1" by simp
  note verification_loop_reverse_index_panics[OF l, of plain_String toy_lib two_level_proof
      "\<lparr>Hash = ''h''\<rparr>" "PathMerkle \<lparr>KeyPaths = [[MkKey ''b'' KeyEncodingURL]]\<rparr>"
      "exist_proof ''/a'' ''r0'' ''h''" "[]" "''r0''"]
  then show ?thesis
    by (simp add: VerifyMembership_def ValidateBasic_def IsEmpty_def two_level_proof_def
        exist_proof_def index_at_def Root_nil_or_empty_def Path_nil_or_empty_def
        MerkleRoot_IsEmpty_def MerklePath_IsEmpty_def GetHash_def toy_lib_def plain_String_def
        after_def)
qed

section \<open>Non-membership\<close>

lemma IsEmpty_loop_panic_kind:
  "IsEmpty_loop specs i ps = Panicked x \<Longrightarrow> x = IndexOutOfRange"
  by (induction ps arbitrary: i) (auto split: if_splits option.splits)

lemma ValidateBasic_panic_kind:
  "ValidateBasic proof = Panicked x \<Longrightarrow> x = IndexOutOfRange"
  by (auto simp: ValidateBasic_def IsEmpty_def dest: IsEmpty_loop_panic_kind
      split: outcome.splits if_splits)

lemma VerifyNonMembership_loop_existence_first:
  assumes "KeyPaths mpath \<noteq> []" and "Proof cp = CommitmentProof_Exist e"
  shows "VerifyNonMembership_loop ks lib proof r path mpath 0 (Some cp # ps) value subroot =
           ([], Return (Some (Wrap ErrInvalidProof ''proof is not a nonexistence proof'')))"
proof -
  have "0 < length (KeyPaths mpath)" using assms(1) by simp
  from reverse_index_in_range[OF this] assms(2) show ?thesis by simp
qed

text \<open>
  C5. Claim: for every chained proof whose first sub-proof is an existence proof,
  \<open>VerifyNonMembership\<close> always fails with \<open>InvalidProof\<close>. The code fails so, with no
  call to the library, unless \<open>ValidateBasic\<close> panics on the proof: then
  \<open>VerifyNonMembership\<close> panics with it and returns no error. It never succeeds.
\<close>

theorem VerifyNonMembership_existence_first:
  assumes "Proofs proof = Some cp # ps" and "Proof cp = CommitmentProof_Exist e"
  shows "VerifyNonMembership ks lib proof root path = ([], Panicked IndexOutOfRange) \<or>
         (\<exists>err. VerifyNonMembership ks lib proof root path = ([], Return (Some err)) \<and>
                kind_of err = InvalidProof)"
proof (cases "ValidateBasic proof")
  case (Panicked x)
  with ValidateBasic_panic_kind[OF Panicked] show ?thesis
    by (simp add: VerifyNonMembership_panics)
next
  case (Return vb)
  show ?thesis
  proof (cases "vb \<noteq> None \<or> Root_nil_or_empty root \<or> Path_nil_or_empty path")
    case True
    from VerifyNonMembership_empty_params[OF Return True] show ?thesis by simp
  next
    case False
    then obtain r pth where r: "root = Some r" and p: "path = Some pth"
      and ne: "\<not> Path_IsEmpty pth"
      by (cases root; cases path) (auto simp: Root_nil_or_empty_def Path_nil_or_empty_def)
    show ?thesis
    proof (cases pth)
      case (PathOther s b)
      with VerifyNonMembership_other_path[OF Return] p show ?thesis by simp
    next
      case (PathMerkle mpath)
      show ?thesis
      proof (cases "length (Proofs proof) = length (KeyPaths mpath)")
        case True
        have "VerifyNonMembership ks lib proof root path =
                ([], Return (Some (invalid_chained_proof (length (Proofs proof))
                                     (length (KeyPaths mpath)))))"
          using Return False r p PathMerkle True by (simp add: VerifyNonMembership_def)
        then show ?thesis by simp
      next
        case neq: False
        from ne PathMerkle have k: "KeyPaths mpath \<noteq> []"
          by (simp add: MerklePath_IsEmpty_def)
        from VerifyNonMembership_loop_existence_first[OF k assms(2)]
        have "VerifyNonMembership ks lib proof root path =
                ([], Return (Some (Wrap ErrInvalidProof ''proof is not a nonexistence proof'')))"
          using Return False r p PathMerkle neq assms(1)
          by (simp add: VerifyNonMembership_def)
        then show ?thesis by simp
      qed
    qed
  qed
qed

theorem VerifyNonMembership_existence_first_witness:
  "Proofs two_proofs_one_spec =
     Some \<lparr>Proof = CommitmentProof_Exist (Toy_Exist ''/b'' ''v1'' ''r0'')\<rparr> #
     [exist_proof ''/a'' ''r0'' ''h''] \<and>
   VerifyNonMembership plain_String toy_lib two_proofs_one_spec (Some \<lparr>Hash = ''h''\<rparr>)
       (Some (PathMerkle two_level_path)) = ([], Panicked IndexOutOfRange) \<and>
   VerifyNonMembership plain_String toy_lib two_level_proof (Some \<lparr>Hash = ''h''\<rparr>)
       (Some (PathMerkle one_level_path)) =
     ([], Return (Some (Wrap ErrInvalidProof ''proof is not a nonexistence proof'')))"
proof -
  have p: "Proofs two_proofs_one_spec =
     Some \<lparr>Proof = CommitmentProof_Exist (Toy_Exist ''/b'' ''v1'' ''r0'')\<rparr> #
     [exist_proof ''/a'' ''r0'' ''h'']"
    by (simp add: two_proofs_one_spec_def exist_proof_def)
  have e: "Proof \<lparr>Proof = CommitmentProof_Exist (Toy_Exist ''/b'' ''v1'' ''r0'')\<rparr> =
           CommitmentProof_Exist (Toy_Exist ''/b'' ''v1'' ''r0'')" by simp
  note VerifyNonMembership_existence_first[OF p e, of plain_String toy_lib
      "Some \<lparr>Hash = ''h''\<rparr>" "Some (PathMerkle two_level_path)"]
  then show ?thesis using p
    by (simp add: VerifyNonMembership_def ValidateBasic_def IsEmpty_def two_proofs_one_spec_def
        two_level_proof_def one_level_path_def NewMerklePath_def AppendKey_def
        exist_proof_def index_at_def Root_nil_or_empty_def Path_nil_or_empty_def
        MerkleRoot_IsEmpty_def MerklePath_IsEmpty_def GetHash_def)
qed

text \<open>
  C3. Claim: when \<open>VerifyMembership\<close> or \<open>VerifyNonMembership\<close> returns success, the
  check at the last proof index was made against the root the caller gave.
  \<open>VerifyMembership\<close> does so, and \<open>VerifyNonMembership\<close> does for a chain of two or
  more sub-proofs. For a chain of one sub-proof the last index is index 0, the branch
  for index 0 checks absence against the root computed from the sub-proof itself, and
  the caller's root is never read: any two non-empty roots give the same run.
\<close>

theorem VerifyNonMembership_single_proof_ignores_root:
  assumes "length (Proofs proof) = 1"
      and "\<not> MerkleRoot_IsEmpty r" and "\<not> MerkleRoot_IsEmpty r'"
  shows "VerifyNonMembership ks lib proof (Some r) path =
         VerifyNonMembership ks lib proof (Some r') path"
proof -
  from assms(1) obtain p where p: "Proofs proof = [p]"
    by (cases "Proofs proof") auto
  have "VerifyNonMembership_loop ks lib proof r pth mpath 0 [p] v s =
        VerifyNonMembership_loop ks lib proof r' pth mpath 0 [p] v s" for pth mpath v s
    by (simp split: option.splits isCommitmentProof_Proof.splits sum.splits)
  with assms(2,3) p show ?thesis
    by (simp add: VerifyNonMembership_def Root_nil_or_empty_def
        split: outcome.splits option.splits Path.splits)
qed

theorem VerifyNonMembership_single_proof_ignores_root_witness:
  "length (Proofs absence_proof) = 1 \<and>
   \<not> MerkleRoot_IsEmpty \<lparr>Hash = ''h''\<rparr> \<and> \<not> MerkleRoot_IsEmpty \<lparr>Hash = ''unrelated''\<rparr> \<and>
   VerifyNonMembership plain_String toy_lib absence_proof (Some \<lparr>Hash = ''h''\<rparr>)
       (Some (PathMerkle two_level_path)) =
     VerifyNonMembership plain_String toy_lib absence_proof (Some \<lparr>Hash = ''unrelated''\<rparr>)
       (Some (PathMerkle two_level_path)) \<and>
   VerifyNonMembership plain_String toy_lib absence_proof (Some \<lparr>Hash = ''unrelated''\<rparr>)
       (Some (PathMerkle two_level_path)) =
     ([Calculate_call (Toy_Exist ''/a0'' ''x'' ''r0''),
       VerifyNonMembership_call (Some 0) ''r0''
         (nonexist_proof ''/b'' (Toy_Exist ''/a0'' ''x'' ''r0'')) ''/b''],
      Return None)"
proof -
  have l: "length (Proofs absence_proof) = 1" by (simp add: absence_proof_def)
  have r: "\<not> MerkleRoot_IsEmpty \<lparr>Hash = ''h''\<rparr>" "\<not> MerkleRoot_IsEmpty \<lparr>Hash = ''unrelated''\<rparr>"
    by (simp_all add: MerkleRoot_IsEmpty_def GetHash_def)
  note VerifyNonMembership_single_proof_ignores_root[OF l r, of plain_String toy_lib
      "Some (PathMerkle two_level_path)"]
  then show ?thesis using l r
    by (simp add: VerifyNonMembership_def ValidateBasic_def IsEmpty_def absence_proof_def
        two_level_path_def nonexist_proof_def index_at_def Root_nil_or_empty_def
        Path_nil_or_empty_def MerklePath_IsEmpty_def toy_lib_def plain_String_def after_def)
qed

text \<open>
  What holds of C3: a successful run of the membership loop ends with a membership
  check against the hash of the caller's root, and so does a successful run of the
  non-membership loop from an index past 0.
\<close>

lemma VerifyMembership_loop_anchored:
  "snd (VerifyMembership_loop ks lib proof r path mpath i ps value) = Return None \<Longrightarrow>
   ps \<noteq> [] \<Longrightarrow> i + length ps = length (Proofs proof) \<Longrightarrow>
   \<exists>tr spec p key v.
     fst (VerifyMembership_loop ks lib proof r path mpath i ps value) =
       tr @ [VerifyMembership_call spec (GetHash r) p key v]"
proof (induction ps arbitrary: i "value")
  case Nil
  then show ?case by simp
next
  case (Cons p ps)
  show ?case
  proof (cases ps)
    case Nil
    with Cons.prems(3) have "int i = int (length (Proofs proof)) - 1" by simp
    with Cons.prems(1) Nil show ?thesis
      by (auto split: option.splits isCommitmentProof_Proof.splits sum.splits if_splits)
  next
    case (Cons q qs)
    then have ne: "ps \<noteq> []" by simp
    from Cons Cons.prems(3) have il: "int i \<noteq> int (length (Proofs proof)) - 1" by simp
    from Cons.prems(3) have len: "Suc i + length ps = length (Proofs proof)" by simp
    from Cons.prems(1) il obtain cs v where
      f: "VerifyMembership_loop ks lib proof r path mpath i (p # ps) value =
            after cs (VerifyMembership_loop ks lib proof r path mpath (Suc i) ps v)"
      and s: "snd (VerifyMembership_loop ks lib proof r path mpath (Suc i) ps v) = Return None"
      by (auto split: option.splits isCommitmentProof_Proof.splits sum.splits if_splits)
    from Cons.IH[OF s ne len] obtain tr spec p' key v' where
      "fst (VerifyMembership_loop ks lib proof r path mpath (Suc i) ps v) =
         tr @ [VerifyMembership_call spec (GetHash r) p' key v']" by blast
    with f have "fst (VerifyMembership_loop ks lib proof r path mpath i (p # ps) value) =
         (cs @ tr) @ [VerifyMembership_call spec (GetHash r) p' key v']" by simp
    then show ?thesis by blast
  qed
qed

lemma VerifyMembership_anchored:
  assumes "snd (VerifyMembership ks lib proof root path value) = Return None"
  shows "\<exists>r tr spec p key v. root = Some r \<and>
           fst (VerifyMembership ks lib proof root path value) =
             tr @ [VerifyMembership_call spec (GetHash r) p key v]"
proof -
  from assms obtain vb where vb: "ValidateBasic proof = Return vb"
    by (cases "ValidateBasic proof") (auto simp: VerifyMembership_def)
  from assms vb have pre: "vb = None" "\<not> Root_nil_or_empty root" "\<not> Path_nil_or_empty path"
    by (auto simp: VerifyMembership_def split: if_splits)
  then obtain r pth where r: "root = Some r" and p: "path = Some pth"
    by (cases root; cases path) (auto simp: Root_nil_or_empty_def Path_nil_or_empty_def)
  from assms vb pre r p obtain mpath where m: "pth = PathMerkle mpath"
    by (cases pth) (auto simp: VerifyMembership_def split: if_splits)
  from assms vb pre r p m have
    e: "VerifyMembership ks lib proof root path value =
          VerifyMembership_loop ks lib proof r (PathMerkle mpath) mpath 0 (Proofs proof) value"
    by (auto simp: VerifyMembership_def split: if_splits)
  from vb pre have ne: "Proofs proof \<noteq> []"
    using ValidateBasic_None[of "proof"] by simp
  from VerifyMembership_loop_anchored[of ks lib "proof" r "PathMerkle mpath" mpath 0 "Proofs proof" "value"]
    assms e ne r show ?thesis by simp
qed

lemma VerifyNonMembership_loop_anchored:
  "snd (VerifyNonMembership_loop ks lib proof r path mpath i ps value subroot) = Return None \<Longrightarrow>
   ps \<noteq> [] \<Longrightarrow> i + length ps = length (Proofs proof) \<Longrightarrow> 0 < i \<Longrightarrow>
   \<exists>tr spec p key v.
     fst (VerifyNonMembership_loop ks lib proof r path mpath i ps value subroot) =
       tr @ [VerifyMembership_call spec (GetHash r) p key v]"
proof (induction ps arbitrary: i "value" subroot)
  case Nil
  then show ?case by simp
next
  case (Cons p ps)
  show ?case
  proof (cases ps)
    case Nil
    with Cons.prems(3) have "int i = int (length (Proofs proof)) - 1" by simp
    with Cons.prems(1,4) Nil show ?thesis
      by (auto split: option.splits if_splits)
  next
    case (Cons q qs)
    then have ne: "ps \<noteq> []" by simp
    from Cons Cons.prems(3) have il: "int i \<noteq> int (length (Proofs proof)) - 1" by simp
    from Cons.prems(3) have len: "Suc i + length ps = length (Proofs proof)" by simp
    from Cons.prems(1,4) il obtain cs v s where
      f: "VerifyNonMembership_loop ks lib proof r path mpath i (p # ps) value subroot =
            after cs (VerifyNonMembership_loop ks lib proof r path mpath (Suc i) ps v s)"
      and s: "snd (VerifyNonMembership_loop ks lib proof r path mpath (Suc i) ps v s) = Return None"
      by (auto split: option.splits isCommitmentProof_Proof.splits sum.splits if_splits)
    from Cons.IH[OF s ne len] obtain tr spec p' key v' where
      "fst (VerifyNonMembership_loop ks lib proof r path mpath (Suc i) ps v s) =
         tr @ [VerifyMembership_call spec (GetHash r) p' key v']" by blast
    with f have "fst (VerifyNonMembership_loop ks lib proof r path mpath i (p # ps) value subroot) =
         (cs @ tr) @ [VerifyMembership_call spec (GetHash r) p' key v']" by simp
    then show ?thesis by blast
  qed
qed

lemma VerifyNonMembership_anchored:
  assumes "snd (VerifyNonMembership ks lib proof root path) = Return None"
      and "2 \<le> length (Proofs proof)"
  shows "\<exists>r tr spec p key v. root = Some r \<and>
           fst (VerifyNonMembership ks lib proof root path) =
             tr @ [VerifyMembership_call spec (GetHash r) p key v]"
proof -
  from assms(1) obtain vb where vb: "ValidateBasic proof = Return vb"
    by (cases "ValidateBasic proof") (auto simp: VerifyNonMembership_def)
  from assms(1) vb have pre: "vb = None" "\<not> Root_nil_or_empty root" "\<not> Path_nil_or_empty path"
    by (auto simp: VerifyNonMembership_def split: if_splits)
  then obtain r pth where r: "root = Some r" and p: "path = Some pth"
    by (cases root; cases path) (auto simp: Root_nil_or_empty_def Path_nil_or_empty_def)
  from assms(1) vb pre r p obtain mpath where m: "pth = PathMerkle mpath"
    by (cases pth) (auto simp: VerifyNonMembership_def split: if_splits)
  from assms(1) vb pre r p m have
    e: "VerifyNonMembership ks lib proof root path =
          VerifyNonMembership_loop ks lib proof r (PathMerkle mpath) mpath 0 (Proofs proof) [] []"
    by (auto simp: VerifyNonMembership_def split: if_splits)
  from assms(2) obtain p0 ps where ps: "Proofs proof = p0 # ps" and ne: "ps \<noteq> []"
    by (cases "Proofs proof") (auto simp: Suc_le_eq)
  from ps have len: "Suc 0 + length ps = length (Proofs proof)" by simp
  from assms(1) e ps obtain cs v s where
    f: "VerifyNonMembership_loop ks lib proof r (PathMerkle mpath) mpath 0 (Proofs proof) [] [] =
          after cs (VerifyNonMembership_loop ks lib proof r (PathMerkle mpath) mpath (Suc 0) ps v s)"
    and s: "snd (VerifyNonMembership_loop ks lib proof r (PathMerkle mpath) mpath (Suc 0) ps v s)
            = Return None"
    by (auto split: option.splits isCommitmentProof_Proof.splits sum.splits if_splits)
  from VerifyNonMembership_loop_anchored[OF s ne len] obtain tr spec p' key v' where
    "fst (VerifyNonMembership_loop ks lib proof r (PathMerkle mpath) mpath (Suc 0) ps v s) =
       tr @ [VerifyMembership_call spec (GetHash r) p' key v']" by auto
  with f e have "fst (VerifyNonMembership ks lib proof root path) =
       (cs @ tr) @ [VerifyMembership_call spec (GetHash r) p' key v']" by simp
  with r show ?thesis by blast
qed

section \<open>Paths: Pretty and ApplyPrefix\<close>

lemma ishex_not_percent: "ishex c \<Longrightarrow> c \<noteq> CHR ''%''"
  by (auto simp: ishex_def)

lemma valid_percent_encoding_Nil [simp]: "valid_percent_encoding []"
  by (simp add: valid_percent_encoding_def)

lemma ball_lessThan_Suc:
  "(\<forall>i \<in> {..<Suc n}. P i) \<longleftrightarrow> P 0 \<and> (\<forall>i \<in> {..<n}. P (Suc i))"
  by (auto simp: less_Suc_eq_0_disj)

lemma valid_percent_encoding_Cons_other:
  "c \<noteq> CHR ''%'' \<Longrightarrow> valid_percent_encoding (c # s) \<longleftrightarrow> valid_percent_encoding s"
  by (simp add: valid_percent_encoding_def ball_lessThan_Suc)

lemma valid_percent_encoding_Cons_percent:
  "valid_percent_encoding (CHR ''%'' # s) \<longleftrightarrow>
   (\<exists>h1 h2 rest. s = h1 # h2 # rest \<and> ishex h1 \<and> ishex h2 \<and> valid_percent_encoding rest)"
proof (cases s)
  case Nil
  then show ?thesis by (simp add: valid_percent_encoding_def)
next
  case (Cons h1 s')
  show ?thesis
  proof (cases s')
    case Nil
    with Cons show ?thesis by (simp add: valid_percent_encoding_def ball_lessThan_Suc)
  next
    case (Cons h2 rest)
    show ?thesis
    proof (cases "ishex h1 \<and> ishex h2")
      case True
      then have "h1 \<noteq> CHR ''%''" "h2 \<noteq> CHR ''%''" by (auto dest: ishex_not_percent)
      with True \<open>s = h1 # s'\<close> Cons show ?thesis
        by (simp add: valid_percent_encoding_def ball_lessThan_Suc)
    next
      case False
      with \<open>s = h1 # s'\<close> Cons show ?thesis
        by (auto simp: valid_percent_encoding_def ball_lessThan_Suc)
    qed
  qed
qed

lemma PathUnescape_valid:
  "valid_percent_encoding s \<Longrightarrow> PathUnescape s = Inr (percent_decode s)"
proof (induction s rule: PathUnescape.induct)
  case 1
  then show ?case by simp
next
  case (2 c s)
  show ?case
  proof (cases "c = CHR ''%''")
    case True
    with "2.prems" obtain h1 h2 rest where
      s: "s = h1 # h2 # rest" and h: "ishex h1" "ishex h2" and v: "valid_percent_encoding rest"
      by (auto simp: valid_percent_encoding_Cons_percent)
    from "2.IH"(1)[OF True s refl conjI[OF h] v] have "PathUnescape rest = Inr (percent_decode rest)" by simp
    with True s h show ?thesis by simp
  next
    case False
    with "2.prems" have v: "valid_percent_encoding s"
      by (simp add: valid_percent_encoding_Cons_other)
    from "2.IH"(2)[OF False v] False show ?thesis
      by (cases s rule: percent_decode.cases) auto
  qed
qed

lemma PathUnescape_invalid:
  "\<not> valid_percent_encoding s \<Longrightarrow> \<exists>e. PathUnescape s = Inl e"
proof (induction s rule: PathUnescape.induct)
  case 1
  then show ?case by simp
next
  case (2 c s)
  show ?case
  proof (cases "c = CHR ''%''")
    case True
    show ?thesis
    proof (cases "\<exists>h1 h2 rest. s = h1 # h2 # rest \<and> ishex h1 \<and> ishex h2")
      case ex: True
      then obtain h1 h2 rest where s: "s = h1 # h2 # rest" and h: "ishex h1" "ishex h2" by blast
      with "2.prems" True have "\<not> valid_percent_encoding rest"
        by (simp add: valid_percent_encoding_Cons_percent)
      from "2.IH"(1)[OF True s refl conjI[OF h] this] obtain e where "PathUnescape rest = Inl e" by auto
      with True s h show ?thesis by simp
    next
      case False
      with True show ?thesis by (auto split: list.splits)
    qed
  next
    case False
    with "2.prems" have "\<not> valid_percent_encoding s"
      by (simp add: valid_percent_encoding_Cons_other)
    from "2.IH"(2)[OF False this] obtain e where "PathUnescape s = Inl e" by auto
    with False show ?thesis by simp
  qed
qed

text \<open>
  C7. \<open>Pretty\<close> returns the percent-decoded form of \<open>String()\<close> when the rendered
  string is valid percent-encoding, and panics exactly when it is not.
\<close>

theorem Pretty_percent_decoded:
  "(valid_percent_encoding (MerklePath_String ks mp) \<longrightarrow>
      Pretty ks mp = Return (percent_decode (MerklePath_String ks mp))) \<and>
   ((\<exists>x. Pretty ks mp = Panicked x) \<longleftrightarrow> \<not> valid_percent_encoding (MerklePath_String ks mp))"
proof (cases "valid_percent_encoding (MerklePath_String ks mp)")
  case True
  from PathUnescape_valid[OF True] True show ?thesis by (simp add: Pretty_def)
next
  case False
  from PathUnescape_invalid[OF False] False show ?thesis by (auto simp: Pretty_def)
qed

theorem Pretty_percent_decoded_witness:
  "MerklePath_String plain_String
     \<lparr>KeyPaths = [[MkKey ''ibc'' KeyEncodingURL], [MkKey ''a%20b'' KeyEncodingURL]]\<rparr> = ''/ibc//a%20b'' \<and>
   valid_percent_encoding ''/ibc//a%20b'' \<and>
   Pretty plain_String
     \<lparr>KeyPaths = [[MkKey ''ibc'' KeyEncodingURL], [MkKey ''a%20b'' KeyEncodingURL]]\<rparr> =
     Return ''/ibc//a b'' \<and>
   MerklePath_String plain_String \<lparr>KeyPaths = [[MkKey ''a%2'' KeyEncodingURL]]\<rparr> = ''/a%2'' \<and>
   \<not> valid_percent_encoding ''/a%2'' \<and>
   Pretty plain_String \<lparr>KeyPaths = [[MkKey ''a%2'' KeyEncodingURL]]\<rparr> =
     Panicked (PanicError ''%2'')"
proof -
  have s1: "MerklePath_String plain_String
     \<lparr>KeyPaths = [[MkKey ''ibc'' KeyEncodingURL], [MkKey ''a%20b'' KeyEncodingURL]]\<rparr> = ''/ibc//a%20b''"
    by (simp add: MerklePath_String_def index_at_def plain_String_def)
  have s2: "MerklePath_String plain_String \<lparr>KeyPaths = [[MkKey ''a%2'' KeyEncodingURL]]\<rparr> = ''/a%2''"
    by (simp add: MerklePath_String_def index_at_def plain_String_def)
  have h: "ishex CHR ''2''" "ishex CHR ''0''" by (simp_all add: ishex_def)
  have v1: "valid_percent_encoding ''/ibc//a%20b''"
    using h by (simp add: valid_percent_encoding_Cons_other valid_percent_encoding_Cons_percent)
  have v2: "\<not> valid_percent_encoding ''/a%2''"
    by (simp add: valid_percent_encoding_Cons_other valid_percent_encoding_Cons_percent)
  have c: "char_of (32 :: nat) = CHR '' ''" by code_simp
  have d: "percent_decode ''/ibc//a%20b'' = ''/ibc//a b''"
    using h c by (simp add: unhex_def)
  note Pretty_percent_decoded[of plain_String
      "\<lparr>KeyPaths = [[MkKey ''ibc'' KeyEncodingURL], [MkKey ''a%20b'' KeyEncodingURL]]\<rparr>"]
  then show ?thesis using s1 s2 v1 v2 d
    by (simp add: Pretty_def)
qed

text \<open>
  C6, as amended. For every path that is not \<open>nil\<close> and whose rendered string the path
  validator accepts, \<open>ApplyPrefix\<close> with a \<open>nil\<close> or empty prefix fails with the
  error \<open>prefix can't be empty\<close>, of kind \<open>EmptyPrefix\<close>.
\<close>

theorem ApplyPrefix_empty_prefix:
  assumes "validator (Path_String ks pth) = None"
      and "Prefix_nil_or_empty prefix"
  shows "ApplyPrefix ks validator prefix (Some pth) =
           Return (\<lparr>KeyPaths = []\<rparr>, Some (ErrorsNew ''prefix can't be empty'')) \<and>
         kind_of (ErrorsNew ''prefix can't be empty'') = EmptyPrefix"
  using assms by (simp add: ApplyPrefix_def)

theorem ApplyPrefix_empty_prefix_witness:
  "blank_path_validator (Path_String plain_String (PathMerkle one_level_path)) = None \<and>
   Prefix_nil_or_empty None \<and> Prefix_nil_or_empty (Some (NewMerklePrefix '''')) \<and>
   ApplyPrefix plain_String blank_path_validator None (Some (PathMerkle one_level_path)) =
     Return (\<lparr>KeyPaths = []\<rparr>, Some (ErrorsNew ''prefix can't be empty'')) \<and>
   ApplyPrefix plain_String blank_path_validator (Some (NewMerklePrefix ''''))
       (Some (PathMerkle one_level_path)) =
     Return (\<lparr>KeyPaths = []\<rparr>, Some (ErrorsNew ''prefix can't be empty''))"
proof -
  have v: "blank_path_validator (Path_String plain_String (PathMerkle one_level_path)) = None"
    by (simp add: blank_path_validator_def MerklePath_String_def one_level_path_def
        NewMerklePath_def AppendKey_def index_at_def plain_String_def)
  have n: "Prefix_nil_or_empty None" "Prefix_nil_or_empty (Some (NewMerklePrefix ''''))"
    by (simp_all add: Prefix_nil_or_empty_def MerklePrefix_IsEmpty_def Bytes_def
        NewMerklePrefix_def)
  note ApplyPrefix_empty_prefix[where validator = blank_path_validator and ks = plain_String
      and pth = "PathMerkle one_level_path" and prefix = None, OF v n(1)]
    ApplyPrefix_empty_prefix[where validator = blank_path_validator and ks = plain_String
      and pth = "PathMerkle one_level_path" and prefix = "Some (NewMerklePrefix '''')", OF v n(2)]
  then show ?thesis using v n by simp
qed

text \<open>
  C6, as the claim states it, fails: the path string is validated before the prefix is
  looked at, so with a \<open>nil\<close> prefix and a path the validator rejects the error is the
  validator's; and on a \<open>nil\<close> path the first call, \<open>path.String()\<close>, panics.
\<close>

theorem ApplyPrefix_empty_prefix_counterexample:
  "ApplyPrefix plain_String blank_path_validator None (Some (PathMerkle \<lparr>KeyPaths = []\<rparr>)) =
     Return (\<lparr>KeyPaths = []\<rparr>, Some (Wrap ErrInvalidPath ''path cannot be blank'')) \<and>
   kind_of (Wrap ErrInvalidPath ''path cannot be blank'') \<noteq> EmptyPrefix \<and>
   ApplyPrefix plain_String blank_path_validator None None = Panicked NilDereference"
  by (simp add: ApplyPrefix_def blank_path_validator_def MerklePath_String_def)

text \<open>The rest of \<open>ApplyPrefix\<close>: the validator's error, and the prefixed path.\<close>

lemma ApplyPrefix_invalid_path:
  "validator (Path_String ks pth) = Some err \<Longrightarrow>
   ApplyPrefix ks validator prefix (Some pth) = Return (\<lparr>KeyPaths = []\<rparr>, Some err)"
  by (simp add: ApplyPrefix_def)

lemma ApplyPrefix_prepends:
  assumes "validator (MerklePath_String ks mpath) = None"
      and "\<not> MerklePrefix_IsEmpty pre"
  shows "ApplyPrefix ks validator (Some pre) (Some (PathMerkle mpath)) =
           Return (\<lparr>KeyPaths = [MkKey (Bytes pre) KeyEncodingURL] # KeyPaths mpath\<rparr>, None)"
  using assms
  by (simp add: ApplyPrefix_def Prefix_nil_or_empty_def NewMerklePath_def AppendKey_def)

section \<open>The handshake handlers\<close>

lemma Result_zero_IsOK: "IsOK Result_zero"
  by (simp add: IsOK_def Result_zero_def)

text \<open>
  C10. Each handler returns the empty, successful result when the handshaker's
  operation returns no error, and otherwise an error result in codespace \<open>ibc\<close> whose
  code is fixed by the message type: 100 for \<open>OpenInit\<close>, 200 for \<open>OpenTry\<close>, 300
  for \<open>OpenAck\<close>, 400 for \<open>OpenConfirm\<close>.
\<close>

theorem handlers_result:
  fixes man :: "('ctx, 'id, 'conn, 'prf, 'h, 'obj) Handshaker"
  shows
  "(snd (snd (OpenInit man ctx (Init_ConnectionID mi) (Init_Connection mi)
                (Init_CounterpartyClient mi) (Init_NextTimeout mi))) = None \<longrightarrow>
      snd (HandleMsgOpenInit abciLog ctx mi man) = Result_zero \<and>
      IsOK (snd (HandleMsgOpenInit abciLog ctx mi man))) \<and>
   (snd (snd (OpenInit man ctx (Init_ConnectionID mi) (Init_Connection mi)
                (Init_CounterpartyClient mi) (Init_NextTimeout mi))) \<noteq> None \<longrightarrow>
      Codespace (snd (HandleMsgOpenInit abciLog ctx mi man)) = ''ibc'' \<and>
      Code (snd (HandleMsgOpenInit abciLog ctx mi man)) = 100 \<and>
      \<not> IsOK (snd (HandleMsgOpenInit abciLog ctx mi man))) \<and>
   (snd (snd (OpenTry man ctx (Try_Proofs mt) (Try_ConnectionID mt) (Try_Connection mt)
                (Try_CounterpartyClient mt) (Try_Timeout mt) (Try_NextTimeout mt))) = None \<longrightarrow>
      snd (HandleMsgOpenTry abciLog ctx mt man) = Result_zero \<and>
      IsOK (snd (HandleMsgOpenTry abciLog ctx mt man))) \<and>
   (snd (snd (OpenTry man ctx (Try_Proofs mt) (Try_ConnectionID mt) (Try_Connection mt)
                (Try_CounterpartyClient mt) (Try_Timeout mt) (Try_NextTimeout mt))) \<noteq> None \<longrightarrow>
      Codespace (snd (HandleMsgOpenTry abciLog ctx mt man)) = ''ibc'' \<and>
      Code (snd (HandleMsgOpenTry abciLog ctx mt man)) = 200 \<and>
      \<not> IsOK (snd (HandleMsgOpenTry abciLog ctx mt man))) \<and>
   (snd (snd (OpenAck man ctx (Ack_Proofs ma) (Ack_ConnectionID ma) (Ack_Timeout ma)
                (Ack_NextTimeout ma))) = None \<longrightarrow>
      snd (HandleMsgOpenAck abciLog ctx ma man) = Result_zero \<and>
      IsOK (snd (HandleMsgOpenAck abciLog ctx ma man))) \<and>
   (snd (snd (OpenAck man ctx (Ack_Proofs ma) (Ack_ConnectionID ma) (Ack_Timeout ma)
                (Ack_NextTimeout ma))) \<noteq> None \<longrightarrow>
      Codespace (snd (HandleMsgOpenAck abciLog ctx ma man)) = ''ibc'' \<and>
      Code (snd (HandleMsgOpenAck abciLog ctx ma man)) = 300 \<and>
      \<not> IsOK (snd (HandleMsgOpenAck abciLog ctx ma man))) \<and>
   (snd (snd (OpenConfirm man ctx (Confirm_Proofs mc) (Confirm_ConnectionID mc)
                (Confirm_Timeout mc))) = None \<longrightarrow>
      snd (HandleMsgOpenConfirm abciLog ctx mc man) = Result_zero \<and>
      IsOK (snd (HandleMsgOpenConfirm abciLog ctx mc man))) \<and>
   (snd (snd (OpenConfirm man ctx (Confirm_Proofs mc) (Confirm_ConnectionID mc)
                (Confirm_Timeout mc))) \<noteq> None \<longrightarrow>
      Codespace (snd (HandleMsgOpenConfirm abciLog ctx mc man)) = ''ibc'' \<and>
      Code (snd (HandleMsgOpenConfirm abciLog ctx mc man)) = 400 \<and>
      \<not> IsOK (snd (HandleMsgOpenConfirm abciLog ctx mc man)))"
  by (auto simp: HandleMsgOpenInit_def HandleMsgOpenTry_def HandleMsgOpenAck_def
      HandleMsgOpenConfirm_def IsOK_def Result_zero_def split: prod.splits option.splits)

theorem handlers_result_witness:
  "HandleMsgOpenInit toy_abciLog 0
     \<lparr>Init_ConnectionID = ''conn'', Init_Connection = ''c'', Init_CounterpartyClient = ''client'',
      Init_NextTimeout = 10\<rparr> toy_man = (1, Result_zero) \<and>
   HandleMsgOpenInit toy_abciLog 0
     \<lparr>Init_ConnectionID = '''', Init_Connection = ''c'', Init_CounterpartyClient = ''client'',
      Init_NextTimeout = 10\<rparr> toy_man =
     (0, \<lparr>Code = 100, Codespace = ''ibc'', Log = ''invalid connection id''\<rparr>) \<and>
   HandleMsgOpenTry toy_abciLog 0
     \<lparr>Try_Proofs = [()], Try_ConnectionID = '''', Try_Connection = ''c'',
      Try_CounterpartyClient = ''client'', Try_Timeout = 5, Try_NextTimeout = 10\<rparr> toy_man =
     (0, \<lparr>Code = 200, Codespace = ''ibc'', Log = ''invalid connection id''\<rparr>) \<and>
   HandleMsgOpenAck toy_abciLog 0
     \<lparr>Ack_Proofs = [()], Ack_ConnectionID = '''', Ack_Timeout = 5, Ack_NextTimeout = 10\<rparr> toy_man =
     (0, \<lparr>Code = 300, Codespace = ''ibc'', Log = ''invalid connection id''\<rparr>) \<and>
   HandleMsgOpenConfirm toy_abciLog 0
     \<lparr>Confirm_Proofs = [()], Confirm_ConnectionID = '''', Confirm_Timeout = 5\<rparr> toy_man =
     (0, \<lparr>Code = 400, Codespace = ''ibc'', Log = ''invalid connection id''\<rparr>) \<and>
   HandleMsgOpenConfirm toy_abciLog 0
     \<lparr>Confirm_Proofs = [()], Confirm_ConnectionID = ''conn'', Confirm_Timeout = 5\<rparr> toy_man =
     (1, Result_zero)"
  using handlers_result[where man = toy_man and ctx = 0 and abciLog = toy_abciLog
      and mi = "\<lparr>Init_ConnectionID = '''', Init_Connection = ''c'',
                 Init_CounterpartyClient = ''client'', Init_NextTimeout = 10\<rparr>"
      and mt = "\<lparr>Try_Proofs = [()], Try_ConnectionID = '''', Try_Connection = ''c'',
                 Try_CounterpartyClient = ''client'', Try_Timeout = 5, Try_NextTimeout = 10\<rparr>"
      and ma = "\<lparr>Ack_Proofs = [()], Ack_ConnectionID = '''', Ack_Timeout = 5,
                 Ack_NextTimeout = 10\<rparr>"
      and mc = "\<lparr>Confirm_Proofs = [()], Confirm_ConnectionID = ''conn'',
                 Confirm_Timeout = 5\<rparr>"]
  by (simp add: HandleMsgOpenInit_def HandleMsgOpenTry_def HandleMsgOpenAck_def
      HandleMsgOpenConfirm_def toy_man_def toy_op_def)

end
